theory Spec2Isabelle
  imports Complex_Main
begin

section \<open>Numbers\<close>

text \<open>
  A JavaScript \<^verbatim>\<open>number\<close> that takes part in the search arithmetic: a finite value, one of
  the two infinities, or NaN.  Finite values are real numbers, so finite arithmetic is
  exact here where IEEE 754 rounds; negative zero is not distinguished from zero.
  Coordinates and interpolation values are finite and are plain reals; the cost of an
  edge is a finite number or NaN (\<open>edgecost\<close> below).
\<close>

datatype jsnum = Num real | PosInf | NegInf | NaN

fun js_add :: "jsnum \<Rightarrow> jsnum \<Rightarrow> jsnum" where
  "js_add (Num a) (Num b) = Num (a + b)"
| "js_add NaN _ = NaN"
| "js_add _ NaN = NaN"
| "js_add PosInf NegInf = NaN"
| "js_add NegInf PosInf = NaN"
| "js_add PosInf _ = PosInf"
| "js_add _ PosInf = PosInf"
| "js_add NegInf _ = NegInf"
| "js_add _ NegInf = NegInf"

definition js_scale :: "real \<Rightarrow> jsnum \<Rightarrow> jsnum" where
  \<comment> \<open>the product of a finite number and a number: \<open>0 * Infinity\<close> is NaN\<close>
  "js_scale a y =
     (case y of
        Num b \<Rightarrow> Num (a * b)
      | NaN \<Rightarrow> NaN
      | PosInf \<Rightarrow> (if 0 < a then PosInf else if a < 0 then NegInf else NaN)
      | NegInf \<Rightarrow> (if 0 < a then NegInf else if a < 0 then PosInf else NaN))"

fun js_less :: "jsnum \<Rightarrow> jsnum \<Rightarrow> bool" where
  "js_less (Num a) (Num b) = (a < b)"
| "js_less NaN _ = False"
| "js_less _ NaN = False"
| "js_less _ NegInf = False"
| "js_less PosInf _ = False"
| "js_less NegInf _ = True"
| "js_less _ PosInf = True"

fun js_ge :: "jsnum \<Rightarrow> jsnum \<Rightarrow> bool" where
  "js_ge (Num a) (Num b) = (b \<le> a)"
| "js_ge NaN _ = False"
| "js_ge _ NaN = False"
| "js_ge _ NegInf = True"
| "js_ge PosInf _ = True"
| "js_ge NegInf _ = False"
| "js_ge _ PosInf = False"

definition js_or :: "jsnum option \<Rightarrow> jsnum \<Rightarrow> jsnum" where
  \<comment> \<open>\<open>x || d\<close> for \<open>x\<close> a number or undefined: undefined, 0 and NaN are falsy\<close>
  "js_or x d =
     (case x of
        None \<Rightarrow> d
      | Some v \<Rightarrow> (if v = Num 0 \<or> v = NaN then d else v))"

subsection \<open>Number.prototype.toFixed(4)\<close>

definition digitChar :: "nat \<Rightarrow> char" where
  "digitChar d = ''0123456789'' ! d"

function decimalDigits :: "nat \<Rightarrow> string" where
  "decimalDigits n =
     (if n < 10 then [digitChar n]
      else decimalDigits (n div 10) @ [digitChar (n mod 10)])"
  by pat_completeness auto
termination
  by (relation "measure id") auto

declare decimalDigits.simps [simp del]

definition toFixed4 :: "real \<Rightarrow> string" where
  \<comment> \<open>the integer \<open>n\<close> nearest to \<open>x * 10^4\<close> (the larger on a tie), printed with four
      fraction digits; below \<open>10^21\<close> in magnitude, where JavaScript prints no exponent\<close>
  "toFixed4 x =
     (let s = (if x < 0 then ''-'' else '''');
          n = nat \<lfloor>\<bar>x\<bar> * 10000 + 1 / 2\<rfloor>;
          m = decimalDigits n;
          m' = (if length m \<le> 4 then replicate (5 - length m) CHR ''0'' @ m else m);
          k = length m'
      in s @ take (k - 4) m' @ ''.'' @ drop (k - 4) m')"

section \<open>Data model (core/types.ts)\<close>

record LatLng =
  lat :: real
  lng :: real

datatype RoutingMode = Car | Bicycle | Pedestrian

record OSMNode =
  node_id :: string
  node_lat :: real
  node_lon :: real

record OSMWay =
  way_id :: string
  way_nodeIds :: "string list"
  tags :: "string \<rightharpoonup> string"

record ParsedOSM =
  osm_nodes :: "string \<rightharpoonup> OSMNode"
  osm_ways :: "OSMWay list"

text \<open>
  The cost of an edge is what \<open>buildFromOSM\<close> computes from two nodes and a speed: a
  finite number of minutes, or NaN when the speed is not a number.
\<close>

datatype edgecost = Minutes real | NaNCost

record Edge =
  targetNodeId :: string
  cost :: edgecost
  wayId :: string
  edge_isOneway :: bool
  validModes :: "RoutingMode list"

definition js_of_cost :: "edgecost \<Rightarrow> jsnum" where
  \<comment> \<open>the cost of an edge as a number of the search\<close>
  "js_of_cost c = (case c of Minutes m \<Rightarrow> Num m | NaNCost \<Rightarrow> NaN)"

definition js_cost_times :: "edgecost \<Rightarrow> real \<Rightarrow> jsnum" where
  \<comment> \<open>\<open>edge.cost * fraction\<close> for a finite fraction\<close>
  "js_cost_times c fraction =
     (case c of Minutes m \<Rightarrow> Num (m * fraction) | NaNCost \<Rightarrow> NaN)"

record SnappedPoint =
  location :: LatLng
  nodeIds :: "string \<times> string"
  interpolation :: real

datatype RouteStep =
    Explore string jsnum jsnum
  | PathUpdate "string list"
  | Complete "string list" jsnum

section \<open>RoadNetwork (data/RoadNetwork.ts)\<close>

text \<open>
  The adjacency \<^verbatim>\<open>Map<string, Edge[]>\<close> is an association list in insertion order, the
  order in which \<^verbatim>\<open>entries()\<close> enumerates it.
\<close>

record RoadNetwork =
  nodes :: "string \<rightharpoonup> OSMNode"
  adjacencyList :: "(string \<times> Edge list) list"

definition atan2 :: "real \<Rightarrow> real \<Rightarrow> real" where
  "atan2 y x =
     (if 0 < x then arctan (y / x)
      else if x < 0 then (if 0 \<le> y then arctan (y / x) + pi else arctan (y / x) - pi)
      else if 0 < y then pi / 2
      else if y < 0 then - (pi / 2)
      else 0)"

definition haversineDistance :: "LatLng \<Rightarrow> LatLng \<Rightarrow> real" where
  "haversineDistance point1 point2 =
     (let R = 6371000;
          phi1 = lat point1 * pi / 180;
          phi2 = lat point2 * pi / 180;
          dphi = (lat point2 - lat point1) * pi / 180;
          dlambda = (lng point2 - lng point1) * pi / 180;
          a = sin (dphi / 2) * sin (dphi / 2) +
              cos phi1 * cos phi2 * sin (dlambda / 2) * sin (dlambda / 2);
          c = 2 * atan2 (sqrt a) (sqrt (1 - a))
      in R * c)"

definition isOneway :: "(string \<rightharpoonup> string) \<Rightarrow> bool" where
  "isOneway tgs =
     (tgs ''oneway'' = Some ''yes'' \<or> tgs ''oneway'' = Some ''1'' \<or>
      tgs ''oneway'' = Some ''true'')"

definition carRoads :: "string list" where
  "carRoads =
     [''motorway'', ''trunk'', ''primary'', ''secondary'', ''tertiary'',
      ''unclassified'', ''residential'', ''motorway_link'', ''trunk_link'',
      ''primary_link'', ''secondary_link'', ''tertiary_link'', ''living_street'',
      ''service'']"

definition bikeRoads :: "string list" where
  "bikeRoads =
     [''trunk'', ''primary'', ''secondary'', ''tertiary'', ''unclassified'',
      ''residential'', ''living_street'', ''service'', ''cycleway'', ''path'',
      ''footway'', ''track'']"

definition pedestrianRoads :: "string list" where
  "pedestrianRoads =
     [''primary'', ''secondary'', ''tertiary'', ''unclassified'',
      ''residential'', ''living_street'', ''service'', ''footway'',
      ''path'', ''steps'', ''pedestrian'']"

definition getValidModes :: "(string \<rightharpoonup> string) \<Rightarrow> RoutingMode list" where
  "getValidModes tgs =
     (case tgs ''highway'' of
        None \<Rightarrow> []
      | Some highway \<Rightarrow>
          if highway = [] then []
          else (if highway \<in> set carRoads then [Car] else []) @
               (if highway \<in> set bikeRoads then [Bicycle] else []) @
               (if highway \<in> set pedestrianRoads then [Pedestrian] else []))"

definition speedMap :: "(string \<times> real) list" where
  "speedMap =
     [(''motorway'', 120), (''trunk'', 100), (''primary'', 80), (''secondary'', 70),
      (''tertiary'', 60), (''unclassified'', 50), (''residential'', 40),
      (''living_street'', 10), (''service'', 20), (''motorway_link'', 60),
      (''trunk_link'', 50), (''primary_link'', 50), (''secondary_link'', 40),
      (''tertiary_link'', 40), (''cycleway'', 20), (''footway'', 5), (''path'', 5),
      (''steps'', 3), (''pedestrian'', 5)]"

definition objectPrototypeNames :: "string list" where
  \<comment> \<open>the members every object inherits from \<^verbatim>\<open>Object.prototype\<close>: functions, and for
      \<^verbatim>\<open>__proto__\<close> the prototype object itself; all truthy, none a number\<close>
  "objectPrototypeNames =
     [''constructor'', ''__defineGetter__'', ''__defineSetter__'', ''hasOwnProperty'',
      ''__lookupGetter__'', ''__lookupSetter__'', ''isPrototypeOf'',
      ''propertyIsEnumerable'', ''toString'', ''valueOf'', ''__proto__'',
      ''toLocaleString'']"

definition getSpeedLimit :: "(string \<rightharpoonup> string) \<Rightarrow> real option" where
  \<comment> \<open>\<open>speedMap[highway] || 40\<close>: the number under an own key of the table, the
      inherited member under a name of \<open>objectPrototypeNames\<close> (not a number: \<open>None\<close>),
      and 40 where the lookup is \<^verbatim>\<open>undefined\<close>\<close>
  "getSpeedLimit tgs =
     (case tgs ''highway'' of
        None \<Rightarrow> Some 40
      | Some highway \<Rightarrow>
          if highway = [] then Some 40
          else (case map_of speedMap highway of
                  Some v \<Rightarrow> Some v
                | None \<Rightarrow>
                    if highway \<in> set objectPrototypeNames then None else Some 40))"

definition edgesAt :: "RoadNetwork \<Rightarrow> string \<Rightarrow> Edge list" where
  \<comment> \<open>\<open>this.adjacencyList.get(nodeId) || []\<close>\<close>
  "edgesAt net nodeId =
     (case map_of (adjacencyList net) nodeId of None \<Rightarrow> [] | Some es \<Rightarrow> es)"

definition addEdge :: "string \<Rightarrow> Edge \<Rightarrow> RoadNetwork \<Rightarrow> RoadNetwork" where
  "addEdge fromId edge net =
     (let adj = (if map_of (adjacencyList net) fromId = None
                 then adjacencyList net @ [(fromId, [])]
                 else adjacencyList net)
      in net\<lparr>adjacencyList :=
               map (\<lambda>(k, es). if k = fromId then (k, es @ [edge]) else (k, es)) adj\<rparr>)"

definition segmentCost :: "OSMNode \<Rightarrow> OSMNode \<Rightarrow> real option \<Rightarrow> edgecost" where
  \<comment> \<open>\<open>(distance / 1000) / speed * 60\<close>; dividing by what is not a number gives NaN\<close>
  "segmentCost fromNode toNode speed =
     (let distance = haversineDistance
            \<lparr>lat = node_lat fromNode, lng = node_lon fromNode\<rparr>
            \<lparr>lat = node_lat toNode, lng = node_lon toNode\<rparr>
      in case speed of
           None \<Rightarrow> NaNCost
         | Some v \<Rightarrow> Minutes ((distance / 1000) / v * 60))"

definition processSegment :: "OSMWay \<Rightarrow> RoadNetwork \<Rightarrow> nat \<Rightarrow> RoadNetwork" where
  \<comment> \<open>the body of the inner loop of \<open>buildFromOSM\<close>, at index \<open>i\<close>\<close>
  "processSegment way net i =
     (let oneway = isOneway (tags way);
          modes = getValidModes (tags way);
          speed = getSpeedLimit (tags way);
          fromId = way_nodeIds way ! i;
          toId = way_nodeIds way ! (i + 1)
      in case nodes net fromId of
           None \<Rightarrow> net
         | Some fromNode \<Rightarrow>
            (case nodes net toId of
               None \<Rightarrow> net
             | Some toNode \<Rightarrow>
                (let c = segmentCost fromNode toNode speed;
                     net1 = addEdge fromId
                       \<lparr>targetNodeId = toId, cost = c, wayId = way_id way,
                        edge_isOneway = oneway, validModes = modes\<rparr> net
                 in if \<not> oneway
                    then addEdge toId
                       \<lparr>targetNodeId = fromId, cost = c, wayId = way_id way,
                        edge_isOneway = False, validModes = modes\<rparr> net1
                    else net1)))"

definition processWay :: "RoadNetwork \<Rightarrow> OSMWay \<Rightarrow> RoadNetwork" where
  "processWay net way =
     foldl (processSegment way) net [0 ..< length (way_nodeIds way) - 1]"

definition buildFromOSM :: "ParsedOSM \<Rightarrow> RoadNetwork" where
  "buildFromOSM parsed =
     foldl processWay \<lparr>nodes = osm_nodes parsed, adjacencyList = []\<rparr> (osm_ways parsed)"

definition getNode :: "RoadNetwork \<Rightarrow> string \<Rightarrow> OSMNode option" where
  "getNode net nodeId = nodes net nodeId"

definition getNeighbors :: "RoadNetwork \<Rightarrow> string \<Rightarrow> RoutingMode \<Rightarrow> Edge list" where
  "getNeighbors net nodeId mode =
     (let edges = edgesAt net nodeId
      in if mode = Car
         then filter (\<lambda>edge. mode \<in> set (validModes edge)) edges
         else filter (\<lambda>edge. mode \<in> set (validModes edge)) edges)"

section \<open>Virtual node identifiers (routing/AStarRouter.ts)\<close>

definition getVirtualNodeId :: "SnappedPoint \<Rightarrow> string" where
  "getVirtualNodeId point =
     fst (nodeIds point) @ ''_'' @ snd (nodeIds point) @ ''_'' @
     toFixed4 (interpolation point)"

section \<open>PriorityQueue (routing/PriorityQueue.ts)\<close>

text \<open>
  What can go wrong in a run.  \<open>TypeError\<close>: a property is read from \<^verbatim>\<open>undefined\<close>
  (an array read out of range followed by \<^verbatim>\<open>.priority\<close>).  \<open>UndefinedAsserted\<close>: a value
  that the source asserts to be defined with \<^verbatim>\<open>!\<close> is \<^verbatim>\<open>undefined\<close>; TypeScript checks
  nothing there at run time, the typed model has no value to go on with.
  \<open>Nontermination\<close>: a loop runs forever.
\<close>

datatype failure = TypeError | UndefinedAsserted | Nontermination

type_synonym 'a heap = "('a \<times> jsnum) list"

definition heapAt :: "'a heap \<Rightarrow> nat \<Rightarrow> failure + ('a \<times> jsnum)" where
  "heapAt heap i = (if i < length heap then Inr (heap ! i) else Inl TypeError)"

function bubbleUp :: "'a heap \<Rightarrow> nat \<Rightarrow> failure + 'a heap" where
  "bubbleUp heap index =
     (if 0 < index then
        (let parentIndex = (index - 1) div 2
         in case heapAt heap index of
              Inl e \<Rightarrow> Inl e
            | Inr x \<Rightarrow>
               (case heapAt heap parentIndex of
                  Inl e \<Rightarrow> Inl e
                | Inr p \<Rightarrow>
                    if js_ge (snd x) (snd p) then Inr heap
                    else bubbleUp (heap[index := p, parentIndex := x]) parentIndex))
      else Inr heap)"
  by pat_completeness auto
termination
  by (relation "measure snd") auto

declare bubbleUp.simps [simp del]

definition push :: "'a heap \<Rightarrow> 'a \<Rightarrow> jsnum \<Rightarrow> failure + 'a heap" where
  "push heap item priority =
     (let heap1 = heap @ [(item, priority)]
      in bubbleUp heap1 (length heap1 - 1))"

text \<open>
  In \<open>bubbleDown\<close> the source tests \<^verbatim>\<open>leftChild < length\<close> or \<^verbatim>\<open>rightChild < length\<close> before
  each pair of reads, and \<open>index\<close> and \<open>minIndex\<close> lie below the child tested, so no read
  is out of range.
\<close>

function bubbleDown :: "'a heap \<Rightarrow> nat \<Rightarrow> 'a heap" where
  "bubbleDown heap index =
     (let leftChild = 2 * index + 1;
          rightChild = 2 * index + 2;
          minIndex1 = (if leftChild < length heap \<and>
                          js_less (snd (heap ! leftChild)) (snd (heap ! index))
                       then leftChild else index);
          minIndex = (if rightChild < length heap \<and>
                         js_less (snd (heap ! rightChild)) (snd (heap ! minIndex1))
                      then rightChild else minIndex1)
      in if minIndex = index then heap
         else bubbleDown (heap[index := heap ! minIndex, minIndex := heap ! index]) minIndex)"
  by pat_completeness auto
termination
  by (relation "measure (\<lambda>(heap, index). length heap - index)") (auto split: if_splits)

declare bubbleDown.simps [simp del]

definition pop :: "'a heap \<Rightarrow> 'a option \<times> 'a heap" where
  "pop heap =
     (if length heap = 0 then (None, heap)
      else if length heap = 1 then (Some (fst (last heap)), butlast heap)
      else (let result = fst (heap ! 0);
                heap1 = (butlast heap)[0 := last heap]
            in (Some result, bubbleDown heap1 0)))"

definition isEmpty :: "'a heap \<Rightarrow> bool" where
  "isEmpty heap = (length heap = 0)"

lemma bubbleDown_length: "length (bubbleDown heap index) = length heap"
proof (induction heap index rule: bubbleDown.induct)
  case (1 heap index)
  show ?case
    by (subst bubbleDown.simps) (auto simp: Let_def 1)
qed

lemma pop_snd_length: "length (snd (pop heap)) = length heap - 1"
  by (simp add: pop_def Let_def bubbleDown_length)

lemma pop_None: "fst (pop heap) = None \<longleftrightarrow> heap = []"
  by (simp add: pop_def Let_def)

lemma pop_length: "pop heap = (Some x, heap') \<Longrightarrow> length heap' < length heap"
proof -
  assume a: "pop heap = (Some x, heap')"
  then have "heap \<noteq> []" using pop_None [of heap] by auto
  moreover have "length heap' = length heap - 1"
    using pop_snd_length [of heap] a by simp
  ultimately show ?thesis by (cases heap) auto
qed

section \<open>MapMatcher (routing/MapMatcher.ts)\<close>

text \<open>
  \<open>pointToSegmentDistance\<close> returns \<open>None\<close> when it divides by zero, so that "no division
  by zero" is a statement about its result.  \<open>snapToRoad\<close> takes \<open>maxRadius\<close> as an
  argument; the source gives it the default value 100.

  Arithmetic is exact, so for distinct endpoints the denominator \<^verbatim>\<open>dx * dx + dy * dy\<close> is
  never 0 here.  In doubles it underflows to 0 when both differences are tiny; the
  code then computes \<^verbatim>\<open>0 / 0\<close>, which is NaN, for \<open>t\<close> and for the distance, and
  \<open>snapToRoad\<close> passes the segment over.  What is proved of the projection of a segment
  with distinct endpoints is stated for segments out of that regime (\<open>projectable\<close>
  below).
\<close>

record SegmentResult =
  seg_distance :: real
  seg_closestPoint :: LatLng
  seg_t :: real

definition safeDivide :: "real \<Rightarrow> real \<Rightarrow> real option" where
  \<comment> \<open>a division by zero gives Infinity or NaN in JavaScript, not a finite number:
      it is \<open>None\<close> here, and so is the result of a projection that performs one\<close>
  "safeDivide n d = (if d = 0 then None else Some (n / d))"

definition pointToSegmentDistance :: "LatLng \<Rightarrow> LatLng \<Rightarrow> LatLng \<Rightarrow> SegmentResult option" where
  "pointToSegmentDistance point segmentStart segmentEnd =
     (let dx = lng segmentEnd - lng segmentStart;
          dy = lat segmentEnd - lat segmentStart
      in if dx = 0 \<and> dy = 0
         then Some \<lparr>seg_distance = haversineDistance point segmentStart,
                    seg_closestPoint = segmentStart, seg_t = 0\<rparr>
         else
           (case safeDivide
                   ((lng point - lng segmentStart) * dx + (lat point - lat segmentStart) * dy)
                   (dx * dx + dy * dy) of
              None \<Rightarrow> None
            | Some t0 \<Rightarrow>
               (let t1 = max 0 (min 1 t0);
                    closest = \<lparr>lat = lat segmentStart + t1 * dy,
                               lng = lng segmentStart + t1 * dx\<rparr>
                in Some \<lparr>seg_distance = haversineDistance point closest,
                         seg_closestPoint = closest, seg_t = t1\<rparr>)))"

record SnapState =
  bestMatch :: "SnappedPoint option"
  minDistance :: real

definition snapEdge ::
    "RoadNetwork \<Rightarrow> LatLng \<Rightarrow> RoutingMode \<Rightarrow> string \<Rightarrow> OSMNode \<Rightarrow> SnapState \<Rightarrow> Edge \<Rightarrow>
     SnapState" where
  \<comment> \<open>the body of the inner loop of \<open>snapToRoad\<close>; a projection that divided by zero
      is passed over (there is none: \<open>pointToSegmentDistance_defined\<close>)\<close>
  "snapEdge net point mode fromId fromNode s edge =
     (if mode \<notin> set (validModes edge) then s
      else
        (case nodes net (targetNodeId edge) of
           None \<Rightarrow> s
         | Some toNode \<Rightarrow>
            (case pointToSegmentDistance point
                    \<lparr>lat = node_lat fromNode, lng = node_lon fromNode\<rparr>
                    \<lparr>lat = node_lat toNode, lng = node_lon toNode\<rparr> of
               None \<Rightarrow> s
             | Some result \<Rightarrow>
                 if seg_distance result < minDistance s
                 then \<lparr>bestMatch = Some \<lparr>location = seg_closestPoint result,
                                         nodeIds = (fromId, targetNodeId edge),
                                         interpolation = seg_t result\<rparr>,
                       minDistance = seg_distance result\<rparr>
                 else s)))"

definition snapEntry ::
    "RoadNetwork \<Rightarrow> LatLng \<Rightarrow> RoutingMode \<Rightarrow> SnapState \<Rightarrow> string \<times> Edge list \<Rightarrow> SnapState" where
  \<comment> \<open>the body of the outer loop of \<open>snapToRoad\<close>\<close>
  "snapEntry net point mode s entry =
     (case nodes net (fst entry) of
        None \<Rightarrow> s
      | Some fromNode \<Rightarrow> foldl (snapEdge net point mode (fst entry) fromNode) s (snd entry))"

definition snapToRoad ::
    "RoadNetwork \<Rightarrow> LatLng \<Rightarrow> RoutingMode \<Rightarrow> real \<Rightarrow> SnappedPoint option" where
  "snapToRoad net point mode maxRadius =
     bestMatch (foldl (snapEntry net point mode)
                  \<lparr>bestMatch = None, minDistance = maxRadius\<rparr> (adjacencyList net))"

section \<open>AStarRouter (routing/AStarRouter.ts)\<close>

text \<open>
  \<open>findRoute\<close> is a generator.  Its model returns the list of the steps it yields when
  it is run to its end, in order, or the failure that stops it.  \<open>relaxNeighbors\<close> is
  the loop over the neighbours of the current node, \<open>astar_loop\<close> the main loop, with
  the Maps and the Set of the search as a record.
\<close>

definition heuristic :: "LatLng \<Rightarrow> LatLng \<Rightarrow> RoutingMode \<Rightarrow> real" where
  "heuristic src dst mode =
     (let distance = haversineDistance src dst;
          speed = (if mode = Car then 50 else if mode = Bicycle then 20 else 5)
      in (distance / 1000) / speed * 60)"

definition getEdgeCostBetweenNodes ::
    "RoadNetwork \<Rightarrow> string \<Rightarrow> string \<Rightarrow> RoutingMode \<Rightarrow> jsnum" where
  "getEdgeCostBetweenNodes net fromId toId mode =
     (case find (\<lambda>e. targetNodeId e = toId) (getNeighbors net fromId mode) of
        None \<Rightarrow>
          (case find (\<lambda>e. targetNodeId e = fromId) (getNeighbors net toId mode) of
             Some reverseEdge \<Rightarrow> js_of_cost (cost reverseEdge)
           | None \<Rightarrow> PosInf)
      | Some edge \<Rightarrow> js_of_cost (cost edge))"

definition includesId :: "string \<times> string \<Rightarrow> string \<Rightarrow> bool" where
  "includesId ids x = (x = fst ids \<or> x = snd ids)"

definition getNeighborsForNode ::
    "RoadNetwork \<Rightarrow> string \<Rightarrow> SnappedPoint \<Rightarrow> SnappedPoint \<Rightarrow> RoutingMode \<Rightarrow>
     (string \<times> jsnum) list" where
  "getNeighborsForNode net nodeId origin destination mode =
     (if nodeId = getVirtualNodeId origin then
        (let n1 = fst (nodeIds origin);
             n2 = snd (nodeIds origin);
             fullCost = getEdgeCostBetweenNodes net n1 n2 mode;
             costToN1 = js_scale (interpolation origin) fullCost;
             costToN2 = js_scale (1 - interpolation origin) fullCost
         in [(n1, costToN1), (n2, costToN2)])
      else if nodeId = getVirtualNodeId destination then []
      else
        map (\<lambda>edge.
               if includesId (nodeIds destination) nodeId \<and>
                  includesId (nodeIds destination) (targetNodeId edge)
               then
                 (let destId = getVirtualNodeId destination;
                      n1 = fst (nodeIds destination);
                      n2 = snd (nodeIds destination);
                      fraction =
                        (if nodeId = n1 \<and> targetNodeId edge = n2
                         then interpolation destination
                         else if nodeId = n2 \<and> targetNodeId edge = n1
                         then 1 - interpolation destination
                         else 1 / 2)
                  in (destId, js_cost_times (cost edge) fraction))
               else (targetNodeId edge, js_of_cost (cost edge)))
            (getNeighbors net nodeId mode))"

definition getNodeLocation ::
    "RoadNetwork \<Rightarrow> string \<Rightarrow> SnappedPoint \<Rightarrow> SnappedPoint \<Rightarrow> LatLng" where
  "getNodeLocation net nodeId origin destination =
     (if nodeId = getVirtualNodeId origin then location origin
      else if nodeId = getVirtualNodeId destination then location destination
      else (case getNode net nodeId of
              None \<Rightarrow> location origin
            | Some node \<Rightarrow> \<lparr>lat = node_lat node, lng = node_lon node\<rparr>))"

partial_function (option) reconstructPath_loop ::
    "(string \<rightharpoonup> string) \<Rightarrow> string \<Rightarrow> string list \<Rightarrow> string list option" where
  "reconstructPath_loop cameFrom current path =
     (case cameFrom current of
        None \<Rightarrow> Some path
      | Some prev \<Rightarrow> reconstructPath_loop cameFrom prev (prev # path))"

definition reconstructPath :: "(string \<rightharpoonup> string) \<Rightarrow> string \<Rightarrow> string list option" where
  "reconstructPath cameFrom current = reconstructPath_loop cameFrom current [current]"

record SearchState =
  openSet :: "string heap"
  cameFrom :: "string \<rightharpoonup> string"
  gScore :: "string \<rightharpoonup> jsnum"
  fScore :: "string \<rightharpoonup> jsnum"
  closedSet :: "string set"

fun relaxNeighbors ::
    "RoadNetwork \<Rightarrow> SnappedPoint \<Rightarrow> SnappedPoint \<Rightarrow> RoutingMode \<Rightarrow> string \<Rightarrow>
     (string \<times> jsnum) list \<Rightarrow> SearchState \<Rightarrow> failure + SearchState" where
  "relaxNeighbors net origin destination mode current [] st = Inr st"
| "relaxNeighbors net origin destination mode current ((nodeId, c) # rest) st =
     (if nodeId \<in> closedSet st
      then relaxNeighbors net origin destination mode current rest st
      else
        (let tentativeGScore = js_add (js_or (gScore st current) PosInf) c
         in if (case gScore st nodeId of
                  None \<Rightarrow> True
                | Some g \<Rightarrow> js_less tentativeGScore g)
            then
              (let h = heuristic (getNodeLocation net nodeId origin destination)
                         (location destination) mode;
                   f = js_add tentativeGScore (Num h)
               in case push (openSet st) nodeId f of
                    Inl e \<Rightarrow> Inl e
                  | Inr heap' \<Rightarrow>
                      relaxNeighbors net origin destination mode current rest
                        (st\<lparr>openSet := heap',
                            cameFrom := (cameFrom st)(nodeId \<mapsto> current),
                            gScore := (gScore st)(nodeId \<mapsto> tentativeGScore),
                            fScore := (fScore st)(nodeId \<mapsto> f)\<rparr>))
            else relaxNeighbors net origin destination mode current rest st))"

definition searchUniverse :: "RoadNetwork \<Rightarrow> SnappedPoint \<Rightarrow> SnappedPoint \<Rightarrow> string set" where
  \<comment> \<open>the identifiers that can have a neighbour: the two virtual ones and the keys of
      the adjacency map (used to measure the progress of the search)\<close>
  "searchUniverse net origin destination =
     {getVirtualNodeId origin, getVirtualNodeId destination} \<union>
     fst ` set (adjacencyList net)"

lemma relaxNeighbors_closedSet:
  "relaxNeighbors net origin destination mode current ns st = Inr st' \<Longrightarrow>
   closedSet st' = closedSet st"
  by (induction ns arbitrary: st)
     (auto simp: Let_def split: if_splits sum.splits option.splits)

lemma edgesAt_outside: "k \<notin> fst ` set (adjacencyList net) \<Longrightarrow> edgesAt net k = []"
  by (simp add: edgesAt_def map_of_eq_None_iff [THEN iffD2])

lemma getNeighborsForNode_outside:
  "current \<notin> searchUniverse net origin destination \<Longrightarrow>
   getNeighborsForNode net current origin destination mode = []"
  by (simp add: searchUniverse_def getNeighborsForNode_def getNeighbors_def edgesAt_outside)

function astar_loop ::
    "RoadNetwork \<Rightarrow> SnappedPoint \<Rightarrow> SnappedPoint \<Rightarrow> RoutingMode \<Rightarrow> SearchState \<Rightarrow>
     failure + RouteStep list" where
  "astar_loop net origin destination mode st =
     (if isEmpty (openSet st) then Inr [Complete [] PosInf]
      else
        (case pop (openSet st) of
           (None, heap') \<Rightarrow> Inl UndefinedAsserted
         | (Some current, heap') \<Rightarrow>
            if current \<in> closedSet st
            then astar_loop net origin destination mode (st\<lparr>openSet := heap'\<rparr>)
            else
              (let step = Explore current (js_or (gScore st current) (Num 0))
                            (js_or (fScore st current) (Num 0))
               in if current = getVirtualNodeId destination
                  then
                    (case reconstructPath (cameFrom st) current of
                       None \<Rightarrow> Inl Nontermination
                     | Some finalPath \<Rightarrow>
                        (case gScore st current of
                           None \<Rightarrow> Inl UndefinedAsserted
                         | Some totalCost \<Rightarrow> Inr [step, Complete finalPath totalCost]))
                  else
                    (case relaxNeighbors net origin destination mode current
                            (getNeighborsForNode net current origin destination mode)
                            (st\<lparr>openSet := heap',
                                closedSet := insert current (closedSet st)\<rparr>) of
                       Inl e \<Rightarrow> Inl e
                     | Inr st' \<Rightarrow>
                        (case astar_loop net origin destination mode st' of
                           Inl e \<Rightarrow> Inl e
                         | Inr steps \<Rightarrow> Inr (step # steps))))))"
  by pat_completeness auto
termination
proof (relation "inv_image (less_than <*lex*> less_than)
    (\<lambda>(net, origin, destination, mode, st).
       (card (searchUniverse net origin destination - closedSet st),
        length (openSet st)))", goal_cases)
  case 1
  show ?case by (intro wf_inv_image wf_lex_prod wf_less_than)
next
  case (2 net origin destination mode st x heap' current)
  then have "pop (openSet st) = (Some current, heap')" by simp
  then have "length heap' < length (openSet st)" by (rule pop_length)
  then show ?case by simp
next
  case (3 net origin destination mode st x heap' current step st')
  have fin: "finite (searchUniverse net origin destination)"
    by (simp add: searchUniverse_def)
  have cl: "closedSet st' = insert current (closedSet st)"
    using relaxNeighbors_closedSet [OF 3(7)] by simp
  show ?case
  proof (cases "current \<in> searchUniverse net origin destination")
    case True
    with 3(4) have "searchUniverse net origin destination - closedSet st'
        \<subset> searchUniverse net origin destination - closedSet st"
      unfolding cl by auto
    then have "card (searchUniverse net origin destination - closedSet st')
        < card (searchUniverse net origin destination - closedSet st)"
      using fin by (intro psubset_card_mono) auto
    then show ?thesis by simp
  next
    case False
    then have "getNeighborsForNode net current origin destination mode = []"
      by (rule getNeighborsForNode_outside)
    with 3(7) have st': "st' = st\<lparr>openSet := heap', closedSet := insert current (closedSet st)\<rparr>"
      by simp
    have same: "searchUniverse net origin destination - insert current (closedSet st)
        = searchUniverse net origin destination - closedSet st"
      using False by auto
    from 3 have "pop (openSet st) = (Some current, heap')" by simp
    then have "length heap' < length (openSet st)" by (rule pop_length)
    then show ?thesis by (simp add: st' same)
  qed
qed

declare astar_loop.simps [simp del]

definition findRoute ::
    "RoadNetwork \<Rightarrow> SnappedPoint \<Rightarrow> SnappedPoint \<Rightarrow> RoutingMode \<Rightarrow>
     failure + RouteStep list" where
  "findRoute net origin destination mode =
     (let startId = getVirtualNodeId origin;
          h0 = Num (heuristic (location origin) (location destination) mode)
      in case push [] startId h0 of
           Inl e \<Rightarrow> Inl e
         | Inr heap \<Rightarrow>
             astar_loop net origin destination mode
               \<lparr>openSet = heap, cameFrom = Map.empty,
                gScore = [startId \<mapsto> Num 0], fScore = [startId \<mapsto> h0],
                closedSet = {}\<rparr>)"

section \<open>Notions used in the statements\<close>

fun isExplore :: "RouteStep \<Rightarrow> bool" where
  "isExplore (Explore _ _ _) = True"
| "isExplore _ = False"

fun exploredIds :: "RouteStep list \<Rightarrow> string list" where
  "exploredIds [] = []"
| "exploredIds (Explore n _ _ # steps) = n # exploredIds steps"
| "exploredIds (_ # steps) = exploredIds steps"

definition searchInv :: "SearchState \<Rightarrow> bool" where
  "searchInv st \<longleftrightarrow>
     wf {(p, n). cameFrom st n = Some p} \<and>
     (\<forall>n p. cameFrom st n = Some p \<longrightarrow> p \<in> closedSet st) \<and>
     (\<forall>x \<in> fst ` set (openSet st). gScore st x \<noteq> None)"

definition segmentEdges :: "(string \<rightharpoonup> OSMNode) \<Rightarrow> OSMWay \<Rightarrow> nat \<Rightarrow> (string \<times> Edge) list" where
  \<comment> \<open>the edges one inner iteration appends, each with the key it is appended under\<close>
  "segmentEdges ns way i =
     (let fromId = way_nodeIds way ! i; toId = way_nodeIds way ! (i + 1)
      in case ns fromId of
           None \<Rightarrow> []
         | Some fromNode \<Rightarrow>
            (case ns toId of
               None \<Rightarrow> []
             | Some toNode \<Rightarrow>
                (let c = segmentCost fromNode toNode (getSpeedLimit (tags way))
                 in (fromId, \<lparr>targetNodeId = toId, cost = c, wayId = way_id way,
                       edge_isOneway = isOneway (tags way),
                       validModes = getValidModes (tags way)\<rparr>) #
                    (if \<not> isOneway (tags way)
                     then [(toId, \<lparr>targetNodeId = fromId, cost = c, wayId = way_id way,
                              edge_isOneway = False,
                              validModes = getValidModes (tags way)\<rparr>)]
                     else []))))"

definition wayEdges :: "(string \<rightharpoonup> OSMNode) \<Rightarrow> OSMWay \<Rightarrow> (string \<times> Edge) list" where
  "wayEdges ns way =
     concat (map (segmentEdges ns way) [0 ..< length (way_nodeIds way) - 1])"

definition edgesUnder :: "string \<Rightarrow> (string \<times> Edge) list \<Rightarrow> Edge list" where
  "edgesUnder n kes = map snd (filter (\<lambda>ke. fst ke = n) kes)"

definition unclassified :: "(string \<rightharpoonup> string) \<Rightarrow> bool" where
  "unclassified tgs =
     (case tgs ''highway'' of
        None \<Rightarrow> True
      | Some highway \<Rightarrow>
          highway \<notin> set carRoads \<and> highway \<notin> set bikeRoads \<and>
          highway \<notin> set pedestrianRoads)"

definition connects :: "RoadNetwork \<Rightarrow> RoutingMode \<Rightarrow> string \<Rightarrow> string \<Rightarrow> Edge \<Rightarrow> bool" where
  \<comment> \<open>\<open>e\<close> is a stored edge from \<open>a\<close> to \<open>b\<close> that allows the mode\<close>
  "connects net mode a b e \<longleftrightarrow>
     e \<in> set (edgesAt net a) \<and> mode \<in> set (validModes e) \<and> targetNodeId e = b"

text \<open>
  The segments that are valid for a mode, as the specification speaks of them: a stored
  edge that allows the mode and has both endpoints in the node table, with the snapped
  point it gives for a query point and the distance of that point.
\<close>

definition segmentMatch ::
    "RoadNetwork \<Rightarrow> LatLng \<Rightarrow> RoutingMode \<Rightarrow> string \<Rightarrow> Edge \<Rightarrow> (SnappedPoint \<times> real) option" where
  "segmentMatch net point mode fromId edge =
     (if mode \<in> set (validModes edge) then
        (case nodes net fromId of
           None \<Rightarrow> None
         | Some fromNode \<Rightarrow>
            (case nodes net (targetNodeId edge) of
               None \<Rightarrow> None
             | Some toNode \<Rightarrow>
                map_option
                  (\<lambda>result. (\<lparr>location = seg_closestPoint result,
                               nodeIds = (fromId, targetNodeId edge),
                               interpolation = seg_t result\<rparr>, seg_distance result))
                  (pointToSegmentDistance point
                     \<lparr>lat = node_lat fromNode, lng = node_lon fromNode\<rparr>
                     \<lparr>lat = node_lat toNode, lng = node_lon toNode\<rparr>)))
      else None)"

definition segmentMatches ::
    "RoadNetwork \<Rightarrow> LatLng \<Rightarrow> RoutingMode \<Rightarrow> (SnappedPoint \<times> real) list" where
  "segmentMatches net point mode =
     concat (map (\<lambda>entry. List.map_filter (segmentMatch net point mode (fst entry)) (snd entry))
                 (adjacencyList net))"

definition snapStep :: "SnapState \<Rightarrow> SnappedPoint \<times> real \<Rightarrow> SnapState" where
  "snapStep s c =
     (if snd c < minDistance s then \<lparr>bestMatch = Some (fst c), minDistance = snd c\<rparr> else s)"









section \<open>Example inputs\<close>

definition collidingOrigin :: SnappedPoint where
  "collidingOrigin =
     \<lparr>location = \<lparr>lat = 0, lng = 1 / 2\<rparr>, nodeIds = (''a'', ''b''),
      interpolation = 1 / 2\<rparr>"

definition collidingDestination :: SnappedPoint where
  "collidingDestination =
     \<lparr>location = \<lparr>lat = 0, lng = 1 / 2 + 1 / 2 ^ 20\<rparr>, nodeIds = (''a'', ''b''),
      interpolation = 1 / 2 + 1 / 2 ^ 20\<rparr>"

definition nodeA :: OSMNode where "nodeA = \<lparr>node_id = ''a'', node_lat = 0, node_lon = 0\<rparr>"

definition nodeB :: OSMNode where "nodeB = \<lparr>node_id = ''b'', node_lat = 0, node_lon = 1\<rparr>"

definition nodeC :: OSMNode where "nodeC = \<lparr>node_id = ''c'', node_lat = 1, node_lon = 0\<rparr>"

definition nodeD :: OSMNode where "nodeD = \<lparr>node_id = ''d'', node_lat = 1, node_lon = 1\<rparr>"

definition wayAB :: OSMWay where
  "wayAB = \<lparr>way_id = ''w1'', way_nodeIds = [''a'', ''b''],
            tags = [''highway'' \<mapsto> ''residential'']\<rparr>"

definition wayCD :: OSMWay where
  "wayCD = \<lparr>way_id = ''w2'', way_nodeIds = [''c'', ''d''],
            tags = [''highway'' \<mapsto> ''residential'', ''oneway'' \<mapsto> ''yes'']\<rparr>"

definition exampleParsed :: ParsedOSM where
  "exampleParsed =
     \<lparr>osm_nodes = [''a'' \<mapsto> nodeA, ''b'' \<mapsto> nodeB, ''c'' \<mapsto> nodeC, ''d'' \<mapsto> nodeD],
      osm_ways = [wayAB, wayCD]\<rparr>"

definition exampleNet :: RoadNetwork where
  "exampleNet = buildFromOSM exampleParsed"

definition costAB :: real where
  "costAB = haversineDistance \<lparr>lat = 0, lng = 0\<rparr> \<lparr>lat = 0, lng = 1\<rparr> / 1000 / 40 * 60"

definition costCD :: real where
  "costCD = haversineDistance \<lparr>lat = 1, lng = 0\<rparr> \<lparr>lat = 1, lng = 1\<rparr> / 1000 / 40 * 60"

definition edgeAB :: Edge where
  "edgeAB = \<lparr>targetNodeId = ''b'', cost = segmentCost nodeA nodeB (Some 40), wayId = ''w1'',
             edge_isOneway = False, validModes = [Car, Bicycle, Pedestrian]\<rparr>"

definition edgeBA :: Edge where
  "edgeBA = \<lparr>targetNodeId = ''a'', cost = segmentCost nodeA nodeB (Some 40), wayId = ''w1'',
             edge_isOneway = False, validModes = [Car, Bicycle, Pedestrian]\<rparr>"

definition edgeCD :: Edge where
  "edgeCD = \<lparr>targetNodeId = ''d'', cost = segmentCost nodeC nodeD (Some 40), wayId = ''w2'',
             edge_isOneway = True, validModes = [Car, Bicycle, Pedestrian]\<rparr>"

definition exampleOrigin :: SnappedPoint where
  "exampleOrigin =
     \<lparr>location = \<lparr>lat = 0, lng = 1 / 2\<rparr>, nodeIds = (''a'', ''b''), interpolation = 1 / 2\<rparr>"

definition exampleDestination :: SnappedPoint where
  "exampleDestination =
     \<lparr>location = \<lparr>lat = 0, lng = 3 / 4\<rparr>, nodeIds = (''a'', ''b''), interpolation = 3 / 4\<rparr>"

definition farDestination :: SnappedPoint where
  "farDestination =
     \<lparr>location = \<lparr>lat = 1, lng = 1 / 2\<rparr>, nodeIds = (''c'', ''d''), interpolation = 1 / 2\<rparr>"

definition unclassifiedWay :: OSMWay where
  "unclassifiedWay = \<lparr>way_id = ''w3'', way_nodeIds = [''a'', ''b''],
            tags = [''highway'' \<mapsto> ''proposed'']\<rparr>"

definition unclassifiedParsed :: ParsedOSM where
  "unclassifiedParsed =
     \<lparr>osm_nodes = [''a'' \<mapsto> nodeA, ''b'' \<mapsto> nodeB], osm_ways = [unclassifiedWay]\<rparr>"

definition tinyNet :: RoadNetwork where
  "tinyNet = buildFromOSM \<lparr>osm_nodes = [''a'' \<mapsto> nodeA, ''b'' \<mapsto> nodeB], osm_ways = [wayAB]\<rparr>"

definition loopWay :: OSMWay where
  "loopWay = \<lparr>way_id = ''w4'', way_nodeIds = [''a'', ''b'', ''a''],
            tags = [''highway'' \<mapsto> ''residential'', ''oneway'' \<mapsto> ''yes'']\<rparr>"

definition loopParsed :: ParsedOSM where
  "loopParsed =
     \<lparr>osm_nodes = [''a'' \<mapsto> nodeA, ''b'' \<mapsto> nodeB], osm_ways = [loopWay]\<rparr>"

definition queryPoint :: LatLng where
  "queryPoint = \<lparr>lat = 0, lng = 0\<rparr>"


section \<open>Distances\<close>

text \<open>
  In exact arithmetic the value \<open>a\<close> of \<open>haversineDistance\<close> lies in \<open>[0, 1]\<close>, so both
  square roots are taken of non-negative numbers (where \<^verbatim>\<open>Math.sqrt\<close> and the real square
  root agree), and the distance is never negative.
\<close>

lemma half_sum_lower: "- 1 \<le> (C::real) \<Longrightarrow> - S \<le> (1 - 2 * S + C) / 2"
  by (simp add: field_simps)

lemma half_sum_upper: "(C::real) \<le> 1 \<Longrightarrow> (1 - 2 * S + C) / 2 \<le> 1 - S"
  by (simp add: field_simps)

lemma sin_square_le_one: "sin (x::real) * sin x \<le> 1"
proof -
  have "sin x * sin x + cos x * cos x = 1"
    using sin_cos_squared_add [of x] by (simp add: power2_eq_square)
  moreover have "0 \<le> cos x * cos x" by (rule zero_le_square)
  ultimately show ?thesis by linarith
qed

lemma haversine_radicand:
  fixes p1 p2 d :: real
  defines "a \<equiv> sin ((p2 - p1) / 2) * sin ((p2 - p1) / 2) + cos p1 * cos p2 * sin (d / 2) * sin (d / 2)"
  shows "0 \<le> a \<and> a \<le> 1"
proof -
  define s where "s = sin ((p2 - p1) / 2)"
  define u where "u = sin (d / 2)"
  define k where "k = cos p1 * cos p2"
  have k_eq: "k = (cos (p1 - p2) + cos (p1 + p2)) / 2"
    unfolding k_def by (rule cos_times_cos)
  have "cos (2 * ((p2 - p1) / 2)) = 1 - 2 * (sin ((p2 - p1) / 2))\<^sup>2"
    by (rule cos_double_sin)
  moreover have "2 * ((p2 - p1) / 2) = p2 - p1" by simp
  ultimately have "cos (p2 - p1) = 1 - 2 * (s * s)"
    by (simp only: s_def power2_eq_square)
  moreover have "cos (p1 - p2) = cos (p2 - p1)"
    using cos_minus [of "p2 - p1"] by simp
  ultimately have c: "cos (p1 - p2) = 1 - 2 * (s * s)" by simp
  have b: "- 1 \<le> cos (p1 + p2)" "cos (p1 + p2) \<le> 1" by simp_all
  have k_lo: "- (s * s) \<le> k"
    using b(1) unfolding k_eq c by (rule half_sum_lower)
  have k_hi: "k \<le> 1 - s * s"
    using b(2) unfolding k_eq c by (rule half_sum_upper)
  have u2: "0 \<le> u * u" "u * u \<le> 1"
    unfolding u_def by (rule zero_le_square, rule sin_square_le_one)
  have s2: "0 \<le> s * s" "s * s \<le> 1"
    unfolding s_def by (rule zero_le_square, rule sin_square_le_one)
  have a_eq: "a = s * s + k * (u * u)"
    by (simp add: a_def s_def u_def k_def algebra_simps)
  have lo: "- (s * s) * (u * u) \<le> k * (u * u)"
    using k_lo u2(1) by (rule mult_right_mono)
  have "s * s * (u * u) \<le> s * s * 1"
    using u2(2) s2(1) by (rule mult_left_mono)
  with lo have "0 \<le> a" unfolding a_eq by simp
  have hi: "k * (u * u) \<le> (1 - s * s) * (u * u)"
    using k_hi u2(1) by (rule mult_right_mono)
  have "(1 - s * s) * (u * u) \<le> (1 - s * s) * 1"
    using u2(2) s2(2) by (intro mult_left_mono) simp_all
  with hi have "a \<le> 1" unfolding a_eq by simp
  with \<open>0 \<le> a\<close> show ?thesis by simp
qed


lemma atan2_nonneg: "0 \<le> y \<Longrightarrow> 0 \<le> atan2 y x"
proof -
  assume y: "0 \<le> y"
  have "- (pi / 2) < arctan (y / x)" by (rule arctan_lbound)
  then have "0 \<le> arctan (y / x) + pi" using pi_gt_zero by linarith
  moreover have "0 < x \<Longrightarrow> 0 \<le> arctan (y / x)" using y by simp
  ultimately show ?thesis using y by (auto simp: atan2_def)
qed

lemma sin_half_diff:
  "sin ((b - a) * pi / 180 / 2) = - sin ((a - b) * pi / 180 / 2)" for a b :: real
proof -
  have "(b - a) * pi / 180 / 2 = - ((a - b) * pi / 180 / 2)" by (simp add: field_simps)
  then show ?thesis by (simp only: sin_minus)
qed

lemma haversineDistance_commute: "haversineDistance p q = haversineDistance q p"
  unfolding haversineDistance_def Let_def
    sin_half_diff [of "lat p" "lat q"] sin_half_diff [of "lng p" "lng q"]
  by (simp add: mult_ac)


lemma haversineDistance_nonneg: "0 \<le> haversineDistance p q"
proof -
  let ?a = "sin ((lat q - lat p) * pi / 180 / 2) * sin ((lat q - lat p) * pi / 180 / 2) +
     cos (lat p * pi / 180) * cos (lat q * pi / 180) *
     sin ((lng q - lng p) * pi / 180 / 2) * sin ((lng q - lng p) * pi / 180 / 2)"
  have "0 \<le> atan2 (sqrt ?a) (sqrt (1 - ?a))"
    using haversine_radicand [of "lat q * pi / 180" "lat p * pi / 180" "(lng q - lng p) * pi / 180"]
    by (intro atan2_nonneg) (simp add: algebra_simps diff_divide_distrib)
  then show ?thesis by (simp add: haversineDistance_def Let_def)
qed

section \<open>Graph construction\<close>

lemma edgesUnder_append [simp]:
  "edgesUnder n (xs @ ys) = edgesUnder n xs @ edgesUnder n ys"
  by (simp add: edgesUnder_def)

lemma edgesUnder_Nil [simp]: "edgesUnder n [] = []"
  by (simp add: edgesUnder_def)

lemma edgesUnder_Cons [simp]:
  "edgesUnder n ((k, e) # kes) = (if k = n then e # edgesUnder n kes else edgesUnder n kes)"
  by (simp add: edgesUnder_def)

lemma map_of_push:
  "map_of (map (\<lambda>(k, es). if k = f then (k, es @ [e]) else (k, es)) adj) n =
     (if n = f then map_option (\<lambda>es. es @ [e]) (map_of adj f) else map_of adj n)"
  by (induction adj) auto

lemma edgesAt_addEdge:
  "edgesAt (addEdge f e net) n = (if n = f then edgesAt net f @ [e] else edgesAt net n)"
proof -
  define adj' where "adj' =
    (if map_of (adjacencyList net) f = None then adjacencyList net @ [(f, [])]
     else adjacencyList net)"
  have a: "adjacencyList (addEdge f e net) =
      map (\<lambda>(k, es). if k = f then (k, es @ [e]) else (k, es)) adj'"
    by (simp add: addEdge_def Let_def adj'_def)
  have b: "map_of adj' f =
      Some (case map_of (adjacencyList net) f of None \<Rightarrow> [] | Some es \<Rightarrow> es)"
    by (auto simp: adj'_def map_of_append map_add_def split: option.splits)
  have c: "n \<noteq> f \<Longrightarrow> map_of adj' n = map_of (adjacencyList net) n"
    by (simp add: adj'_def map_of_append map_add_def split: option.splits)
  show ?thesis
    unfolding edgesAt_def a map_of_push using b c by simp
qed

lemma nodes_addEdge [simp]: "nodes (addEdge f e net) = nodes net"
  by (simp add: addEdge_def Let_def)

lemma nodes_processSegment [simp]: "nodes (processSegment way net i) = nodes net"
  by (simp add: processSegment_def Let_def split: option.splits)

lemma edgesAt_processSegment:
  "edgesAt (processSegment way net i) n =
     edgesAt net n @ edgesUnder n (segmentEdges (nodes net) way i)"
  by (auto simp: processSegment_def segmentEdges_def Let_def edgesAt_addEdge
      split: option.splits)

lemma foldl_processSegment:
  "nodes (foldl (processSegment way) net is) = nodes net \<and>
   edgesAt (foldl (processSegment way) net is) n =
     edgesAt net n @ edgesUnder n (concat (map (segmentEdges (nodes net) way) is))"
  by (induction "is" arbitrary: net) (simp_all add: edgesAt_processSegment)

lemma processWay_edges:
  "nodes (processWay net way) = nodes net \<and>
   edgesAt (processWay net way) n = edgesAt net n @ edgesUnder n (wayEdges (nodes net) way)"
  using foldl_processSegment [of way net] by (simp add: processWay_def wayEdges_def)

lemma foldl_processWay:
  "nodes (foldl processWay net ws) = nodes net \<and>
   edgesAt (foldl processWay net ws) n =
     edgesAt net n @ edgesUnder n (concat (map (wayEdges (nodes net)) ws))"
  by (induction ws arbitrary: net) (simp_all add: processWay_edges)

lemma edgesAt_buildFromOSM:
  "edgesAt (buildFromOSM parsed) n =
     edgesUnder n (concat (map (wayEdges (osm_nodes parsed)) (osm_ways parsed)))"
  using foldl_processWay [of "\<lparr>nodes = osm_nodes parsed, adjacencyList = []\<rparr>"]
  by (simp add: buildFromOSM_def edgesAt_def)

lemma nodes_buildFromOSM [simp]: "nodes (buildFromOSM parsed) = osm_nodes parsed"
  using foldl_processWay [of "\<lparr>nodes = osm_nodes parsed, adjacencyList = []\<rparr>"]
  by (simp add: buildFromOSM_def)

lemma in_edgesAt_buildFromOSM:
  "e \<in> set (edgesAt (buildFromOSM parsed) n) \<longleftrightarrow>
     (\<exists>way \<in> set (osm_ways parsed). \<exists>i < length (way_nodeIds way) - 1.
        (n, e) \<in> set (segmentEdges (osm_nodes parsed) way i))"
  by (force simp: edgesAt_buildFromOSM edgesUnder_def wayEdges_def)

lemma segmentEdges_wayId:
  "(n, e) \<in> set (segmentEdges ns way i) \<Longrightarrow>
   wayId e = way_id way \<and> validModes e = getValidModes (tags way) \<and>
   (edge_isOneway e = False \<longrightarrow> \<not> isOneway (tags way))"
  by (auto simp: segmentEdges_def Let_def split: option.splits if_splits)

lemma in_segmentEdges:
  "(n, e) \<in> set (segmentEdges ns way j) \<longleftrightarrow>
     (\<exists>a b. ns (way_nodeIds way ! j) = Some a \<and> ns (way_nodeIds way ! (j + 1)) = Some b \<and>
        (n = way_nodeIds way ! j \<and>
         e = \<lparr>targetNodeId = way_nodeIds way ! (j + 1),
               cost = segmentCost a b (getSpeedLimit (tags way)),
               wayId = way_id way, edge_isOneway = isOneway (tags way),
               validModes = getValidModes (tags way)\<rparr> \<or>
         \<not> isOneway (tags way) \<and> n = way_nodeIds way ! (j + 1) \<and>
         e = \<lparr>targetNodeId = way_nodeIds way ! j,
               cost = segmentCost a b (getSpeedLimit (tags way)),
               wayId = way_id way, edge_isOneway = False,
               validModes = getValidModes (tags way)\<rparr>))"
proof (cases "ns (way_nodeIds way ! j)")
  case None
  then show ?thesis by (simp add: segmentEdges_def)
next
  case a: (Some a)
  show ?thesis
  proof (cases "ns (way_nodeIds way ! (j + 1))")
    case None
    with a show ?thesis by (simp add: segmentEdges_def)
  next
    case (Some b)
    with a show ?thesis by (auto simp: segmentEdges_def Let_def)
  qed
qed

lemma in_getNeighbors_edges:
  "e \<in> set (getNeighbors net n mode) \<Longrightarrow> e \<in> set (edgesAt net n)"
  by (auto simp: getNeighbors_def)

lemma same_way:
  assumes "distinct (map way_id ws)" "w \<in> set ws" "w' \<in> set ws" "way_id w' = way_id w"
  shows "w' = w"
  using assms by (meson distinct_map inj_on_def)

lemma residential_modes:
  "getValidModes [''highway'' \<mapsto> ''residential''] = [Car, Bicycle, Pedestrian]"
  "getValidModes [''highway'' \<mapsto> ''residential'', ''oneway'' \<mapsto> ''yes''] = [Car, Bicycle, Pedestrian]"
  by (simp_all add: getValidModes_def carRoads_def bikeRoads_def pedestrianRoads_def)

lemma residential_speed:
  "getSpeedLimit [''highway'' \<mapsto> ''residential''] = Some 40"
  "getSpeedLimit [''highway'' \<mapsto> ''residential'', ''oneway'' \<mapsto> ''yes''] = Some 40"
  by (simp_all add: getSpeedLimit_def speedMap_def)

lemma example_oneway:
  "\<not> isOneway [''highway'' \<mapsto> ''residential'']"
  "isOneway [''highway'' \<mapsto> ''residential'', ''oneway'' \<mapsto> ''yes'']"
  by (simp_all add: isOneway_def)

lemma js_of_cost_simps [simp]:
  "js_of_cost (Minutes m) = Num m" "js_of_cost NaNCost = NaN"
  by (simp_all add: js_of_cost_def)

lemma js_cost_times_simps [simp]:
  "js_cost_times (Minutes m) x = Num (m * x)" "js_cost_times NaNCost x = NaN"
  by (simp_all add: js_cost_times_def)

lemma example_costs:
  "cost edgeAB = Minutes costAB" "cost edgeBA = Minutes costAB" "cost edgeCD = Minutes costCD"
  by (simp_all add: edgeAB_def edgeBA_def edgeCD_def segmentCost_def costAB_def costCD_def
      nodeA_def nodeB_def nodeC_def nodeD_def)

lemma exampleNet_adjacency:
  "adjacencyList exampleNet = [(''a'', [edgeAB]), (''b'', [edgeBA]), (''c'', [edgeCD])]"
  by (simp add: exampleNet_def buildFromOSM_def exampleParsed_def processWay_def
      processSegment_def wayAB_def wayCD_def addEdge_def Let_def residential_modes
      residential_speed example_oneway edgeAB_def edgeBA_def edgeCD_def)

lemma exampleNet_nodes:
  "nodes exampleNet = [''a'' \<mapsto> nodeA, ''b'' \<mapsto> nodeB, ''c'' \<mapsto> nodeC, ''d'' \<mapsto> nodeD]"
  by (simp add: exampleNet_def exampleParsed_def)

lemma exampleNet_edgesAt:
  "edgesAt exampleNet ''a'' = [edgeAB]" "edgesAt exampleNet ''b'' = [edgeBA]"
  "edgesAt exampleNet ''c'' = [edgeCD]" "edgesAt exampleNet ''d'' = []"
  by (simp_all add: edgesAt_def exampleNet_adjacency)

lemma unclassified_modes: "unclassified tgs \<Longrightarrow> getValidModes tgs = []"
  by (auto simp: unclassified_def getValidModes_def split: option.splits)

lemma proposed_unclassified: "unclassified [''highway'' \<mapsto> ''proposed'']"
  by (simp add: unclassified_def carRoads_def bikeRoads_def pedestrianRoads_def)

lemma unclassified_edgesAt:
  "edgesAt (buildFromOSM unclassifiedParsed) ''a'' =
     [\<lparr>targetNodeId = ''b'', cost = segmentCost nodeA nodeB (Some 40), wayId = ''w3'',
       edge_isOneway = False, validModes = []\<rparr>]"
  by (simp add: edgesAt_buildFromOSM unclassifiedParsed_def unclassifiedWay_def wayEdges_def
      segmentEdges_def Let_def getSpeedLimit_def speedMap_def objectPrototypeNames_def
      isOneway_def
      unclassified_modes [OF proposed_unclassified])

text \<open>
  C2, as stated, fails: a way tagged \<open>highway=proposed\<close> is in none of the three lists,
  and after \<open>buildFromOSM\<close> the adjacency list of its first node holds an edge of that
  way.
\<close>

theorem unclassified_way_edges_stored:
  "unclassified (tags unclassifiedWay) \<and>
   unclassifiedWay \<in> set (osm_ways unclassifiedParsed) \<and>
   map wayId (edgesAt (buildFromOSM unclassifiedParsed) ''a'') = [way_id unclassifiedWay]"
  using proposed_unclassified
  by (simp add: unclassified_edgesAt) (simp add: unclassifiedWay_def unclassifiedParsed_def)

text \<open>
  C2, amended: for a way whose highway classification is in none of the three lists
  (way identifiers being unique), graph construction stores, for every consecutive
  node pair with both endpoints in the node table, the forward edge and, unless the
  way is tagged one-way, the backward edge, each with an empty list of allowed modes;
  every stored edge of that way has an empty list of allowed modes; and
  \<open>getNeighbors\<close> returns no edge of that way, for any node and any mode.
\<close>

theorem unclassified_way_edges_unusable:
  assumes way: "way \<in> set (osm_ways parsed)"
    and un: "unclassified (tags way)"
    and ids: "distinct (map way_id (osm_ways parsed))"
  shows "(\<forall>i fromNode toNode.
            i + 1 < length (way_nodeIds way) \<and>
            osm_nodes parsed (way_nodeIds way ! i) = Some fromNode \<and>
            osm_nodes parsed (way_nodeIds way ! (i + 1)) = Some toNode
            \<longrightarrow>
            \<lparr>targetNodeId = way_nodeIds way ! (i + 1),
             cost = segmentCost fromNode toNode (getSpeedLimit (tags way)),
             wayId = way_id way, edge_isOneway = isOneway (tags way), validModes = []\<rparr>
              \<in> set (edgesAt (buildFromOSM parsed) (way_nodeIds way ! i)) \<and>
            (\<not> isOneway (tags way) \<longrightarrow>
             \<lparr>targetNodeId = way_nodeIds way ! i,
              cost = segmentCost fromNode toNode (getSpeedLimit (tags way)),
              wayId = way_id way, edge_isOneway = False, validModes = []\<rparr>
               \<in> set (edgesAt (buildFromOSM parsed) (way_nodeIds way ! (i + 1))))) \<and>
         (\<forall>n e. e \<in> set (edgesAt (buildFromOSM parsed) n) \<and> wayId e = way_id way
            \<longrightarrow> validModes e = []) \<and>
         (\<forall>n mode e. e \<in> set (getNeighbors (buildFromOSM parsed) n mode)
            \<longrightarrow> wayId e \<noteq> way_id way)"
proof -
  have modes: "getValidModes (tags way) = []" using un by (rule unclassified_modes)
  have present:
    "\<lparr>targetNodeId = way_nodeIds way ! (i + 1),
      cost = segmentCost fromNode toNode (getSpeedLimit (tags way)),
      wayId = way_id way, edge_isOneway = isOneway (tags way), validModes = []\<rparr>
       \<in> set (edgesAt (buildFromOSM parsed) (way_nodeIds way ! i)) \<and>
     (\<not> isOneway (tags way) \<longrightarrow>
      \<lparr>targetNodeId = way_nodeIds way ! i,
       cost = segmentCost fromNode toNode (getSpeedLimit (tags way)),
       wayId = way_id way, edge_isOneway = False, validModes = []\<rparr>
        \<in> set (edgesAt (buildFromOSM parsed) (way_nodeIds way ! (i + 1))))"
    if "i + 1 < length (way_nodeIds way)"
      "osm_nodes parsed (way_nodeIds way ! i) = Some fromNode"
      "osm_nodes parsed (way_nodeIds way ! (i + 1)) = Some toNode" for i fromNode toNode
  proof -
    let ?fwd = "\<lparr>targetNodeId = way_nodeIds way ! (i + 1),
          cost = segmentCost fromNode toNode (getSpeedLimit (tags way)),
          wayId = way_id way, edge_isOneway = isOneway (tags way), validModes = []\<rparr>"
    let ?bwd = "\<lparr>targetNodeId = way_nodeIds way ! i,
          cost = segmentCost fromNode toNode (getSpeedLimit (tags way)),
          wayId = way_id way, edge_isOneway = False, validModes = []\<rparr>"
    have i': "i < length (way_nodeIds way) - 1" using that(1) by simp
    have seg: "segmentEdges (osm_nodes parsed) way i =
        (way_nodeIds way ! i, ?fwd) #
        (if \<not> isOneway (tags way) then [(way_nodeIds way ! (i + 1), ?bwd)] else [])"
      using that(2,3) by (simp add: segmentEdges_def Let_def modes)
    have fwd: "?fwd \<in> set (edgesAt (buildFromOSM parsed) (way_nodeIds way ! i))"
      unfolding in_edgesAt_buildFromOSM using way i' seg by force
    have bwd: "?bwd \<in> set (edgesAt (buildFromOSM parsed) (way_nodeIds way ! (i + 1)))"
      if "\<not> isOneway (tags way)"
      unfolding in_edgesAt_buildFromOSM using way i' seg that by force
    from fwd bwd show ?thesis by blast
  qed
  have stored: "validModes e = []"
    if "e \<in> set (edgesAt (buildFromOSM parsed) n)" "wayId e = way_id way" for n e
  proof -
    from that(1) obtain w' j where w': "w' \<in> set (osm_ways parsed)"
      and mem: "(n, e) \<in> set (segmentEdges (osm_nodes parsed) w' j)"
      unfolding in_edgesAt_buildFromOSM by blast
    from segmentEdges_wayId [OF mem] that(2)
    have "way_id w' = way_id way" "validModes e = getValidModes (tags w')" by simp_all
    with same_way [OF ids way w'] un show ?thesis by (simp add: unclassified_modes)
  qed
  have hidden: "wayId e \<noteq> way_id way"
    if "e \<in> set (getNeighbors (buildFromOSM parsed) n mode)" for n mode e
  proof
    assume "wayId e = way_id way"
    moreover from that have "e \<in> set (edgesAt (buildFromOSM parsed) n)"
      "mode \<in> set (validModes e)" by (auto simp: getNeighbors_def)
    ultimately show False using stored by fastforce
  qed
  from present stored hidden show ?thesis by blast
qed

text \<open>
  C2, amended, on the example: the \<open>proposed\<close> way over \<open>(a, b)\<close> is not one-way; its
  forward edge is stored under \<open>a\<close> and its backward edge under \<open>b\<close>, both allow no
  mode, and neither node has a neighbour.
\<close>

theorem unclassified_way_edges_unusable_witness:
  "\<lparr>targetNodeId = ''b'', cost = Minutes costAB, wayId = ''w3'', edge_isOneway = False,
     validModes = []\<rparr> \<in> set (edgesAt (buildFromOSM unclassifiedParsed) ''a'') \<and>
   \<lparr>targetNodeId = ''a'', cost = Minutes costAB, wayId = ''w3'', edge_isOneway = False,
     validModes = []\<rparr> \<in> set (edgesAt (buildFromOSM unclassifiedParsed) ''b'') \<and>
   getNeighbors (buildFromOSM unclassifiedParsed) ''a'' Car = [] \<and>
   getNeighbors (buildFromOSM unclassifiedParsed) ''b'' Car = []"
proof -
  have way: "unclassifiedWay \<in> set (osm_ways unclassifiedParsed)"
    by (simp add: unclassifiedParsed_def)
  have un: "unclassified (tags unclassifiedWay)"
    using proposed_unclassified by (simp add: unclassifiedWay_def)
  have ids: "distinct (map way_id (osm_ways unclassifiedParsed))"
    by (simp add: unclassifiedParsed_def)
  note main = unclassified_way_edges_unusable [OF way un ids]
  have pair: "0 + 1 < length (way_nodeIds unclassifiedWay) \<and>
      osm_nodes unclassifiedParsed (way_nodeIds unclassifiedWay ! 0) = Some nodeA \<and>
      osm_nodes unclassifiedParsed (way_nodeIds unclassifiedWay ! (0 + 1)) = Some nodeB"
    by (simp add: unclassifiedParsed_def unclassifiedWay_def)
  have speed: "getSpeedLimit (tags unclassifiedWay) = Some 40"
    by (simp add: unclassifiedWay_def getSpeedLimit_def speedMap_def objectPrototypeNames_def)
  have twoway: "\<not> isOneway (tags unclassifiedWay)"
    by (simp add: unclassifiedWay_def isOneway_def)
  have c: "segmentCost nodeA nodeB (Some 40) = Minutes costAB"
    by (simp add: segmentCost_def costAB_def nodeA_def nodeB_def)
  from main have edges:
    "\<lparr>targetNodeId = way_nodeIds unclassifiedWay ! (0 + 1),
       cost = segmentCost nodeA nodeB (getSpeedLimit (tags unclassifiedWay)),
       wayId = way_id unclassifiedWay, edge_isOneway = isOneway (tags unclassifiedWay),
       validModes = []\<rparr>
      \<in> set (edgesAt (buildFromOSM unclassifiedParsed) (way_nodeIds unclassifiedWay ! 0)) \<and>
     (\<not> isOneway (tags unclassifiedWay) \<longrightarrow>
      \<lparr>targetNodeId = way_nodeIds unclassifiedWay ! 0,
        cost = segmentCost nodeA nodeB (getSpeedLimit (tags unclassifiedWay)),
        wayId = way_id unclassifiedWay, edge_isOneway = False, validModes = []\<rparr>
       \<in> set (edgesAt (buildFromOSM unclassifiedParsed)
                 (way_nodeIds unclassifiedWay ! (0 + 1))))"
    using pair by blast
  have stored:
    "\<lparr>targetNodeId = ''b'', cost = Minutes costAB, wayId = ''w3'', edge_isOneway = False,
       validModes = []\<rparr> \<in> set (edgesAt (buildFromOSM unclassifiedParsed) ''a'')"
    "\<lparr>targetNodeId = ''a'', cost = Minutes costAB, wayId = ''w3'', edge_isOneway = False,
       validModes = []\<rparr> \<in> set (edgesAt (buildFromOSM unclassifiedParsed) ''b'')"
    using edges twoway unfolding speed c by (simp_all add: unclassifiedWay_def)
  have hidden: "getNeighbors (buildFromOSM unclassifiedParsed) n Car = []" for n
  proof (rule ccontr)
    assume "getNeighbors (buildFromOSM unclassifiedParsed) n Car \<noteq> []"
    then obtain e where e: "e \<in> set (getNeighbors (buildFromOSM unclassifiedParsed) n Car)"
      by (meson hd_in_set)
    with main have "wayId e \<noteq> way_id unclassifiedWay" by blast
    moreover from e have "e \<in> set (edgesAt (buildFromOSM unclassifiedParsed) n)"
      by (simp add: in_getNeighbors_edges)
    then have "wayId e = way_id unclassifiedWay"
      by (auto simp: in_edgesAt_buildFromOSM unclassifiedParsed_def
          dest: segmentEdges_wayId)
    ultimately show False by simp
  qed
  from stored hidden show ?thesis by simp
qed

lemma loop_edgesAt:
  "edgesAt (buildFromOSM loopParsed) ''a'' =
     [\<lparr>targetNodeId = ''b'', cost = Minutes costAB, wayId = ''w4'', edge_isOneway = True,
       validModes = [Car, Bicycle, Pedestrian]\<rparr>]"
  "edgesAt (buildFromOSM loopParsed) ''b'' =
     [\<lparr>targetNodeId = ''a'', cost = Minutes costAB, wayId = ''w4'', edge_isOneway = True,
       validModes = [Car, Bicycle, Pedestrian]\<rparr>]"
proof -
  have ba: "segmentCost nodeB nodeA (Some 40) = Minutes costAB"
    using haversineDistance_commute [of "\<lparr>lat = 0, lng = 1\<rparr>" "\<lparr>lat = 0, lng = 0\<rparr>"]
    by (simp add: segmentCost_def costAB_def nodeA_def nodeB_def)
  have ab: "segmentCost nodeA nodeB (Some 40) = Minutes costAB"
    by (simp add: segmentCost_def costAB_def nodeA_def nodeB_def)
  have idx: "[0 ..< 2] = [0, Suc 0]" by (simp add: upt_rec)
  show "edgesAt (buildFromOSM loopParsed) ''a'' =
     [\<lparr>targetNodeId = ''b'', cost = Minutes costAB, wayId = ''w4'', edge_isOneway = True,
       validModes = [Car, Bicycle, Pedestrian]\<rparr>]"
    by (simp add: edgesAt_buildFromOSM loopParsed_def loopWay_def wayEdges_def idx
        segmentEdges_def edgesUnder_def Let_def residential_modes residential_speed
        example_oneway ab ba)
  show "edgesAt (buildFromOSM loopParsed) ''b'' =
     [\<lparr>targetNodeId = ''a'', cost = Minutes costAB, wayId = ''w4'', edge_isOneway = True,
       validModes = [Car, Bicycle, Pedestrian]\<rparr>]"
    by (simp add: edgesAt_buildFromOSM loopParsed_def loopWay_def wayEdges_def idx
        segmentEdges_def edgesUnder_def Let_def residential_modes residential_speed
        example_oneway ab ba)
qed

text \<open>
  C5, as stated, fails: the way \<open>w4\<close> runs \<open>a, b, a\<close> and is tagged \<open>oneway=yes\<close>.  For
  its first node pair \<open>(a, b)\<close>, both in the node table, the forward edge \<open>a \<rightarrow> b\<close> is
  stored, and so is an edge \<open>b \<rightarrow> a\<close> of the same way with the same cost and the same
  allowed modes (it is the forward edge of the second pair), although the way is
  tagged one-way.
\<close>

theorem oneway_loop_backward_edge_stored:
  "loopWay \<in> set (osm_ways loopParsed) \<and> isOneway (tags loopWay) \<and>
   way_nodeIds loopWay ! 0 = ''a'' \<and> way_nodeIds loopWay ! 1 = ''b'' \<and>
   osm_nodes loopParsed ''a'' = Some nodeA \<and> osm_nodes loopParsed ''b'' = Some nodeB \<and>
   edgesAt (buildFromOSM loopParsed) ''a'' =
     [\<lparr>targetNodeId = ''b'', cost = Minutes costAB, wayId = way_id loopWay,
       edge_isOneway = True, validModes = [Car, Bicycle, Pedestrian]\<rparr>] \<and>
   edgesAt (buildFromOSM loopParsed) ''b'' =
     [\<lparr>targetNodeId = ''a'', cost = Minutes costAB, wayId = way_id loopWay,
       edge_isOneway = True, validModes = [Car, Bicycle, Pedestrian]\<rparr>]"
  by (simp add: loop_edgesAt) (simp add: loopParsed_def loopWay_def isOneway_def)

text \<open>
  C5, amended: for every way of the input and every consecutive node pair of it whose
  two endpoints are in the node table, the built graph stores the forward edge under
  the first node, and, if the way is not tagged one-way, the backward edge (same cost,
  same allowed modes) under the second node.  Conversely every stored edge is the
  forward edge of such a pair of some way, or the backward edge of such a pair of a
  way that is not tagged one-way: a way tagged one-way contributes its forward edges
  and nothing else.
\<close>

theorem buildFromOSM_forward_backward:
  assumes way: "way \<in> set (osm_ways parsed)"
    and i: "i + 1 < length (way_nodeIds way)"
    and fromNode: "osm_nodes parsed (way_nodeIds way ! i) = Some fromNode"
    and toNode: "osm_nodes parsed (way_nodeIds way ! (i + 1)) = Some toNode"
  shows "\<lparr>targetNodeId = way_nodeIds way ! (i + 1),
          cost = segmentCost fromNode toNode (getSpeedLimit (tags way)),
          wayId = way_id way, edge_isOneway = isOneway (tags way),
          validModes = getValidModes (tags way)\<rparr>
         \<in> set (edgesAt (buildFromOSM parsed) (way_nodeIds way ! i)) \<and>
        (\<not> isOneway (tags way) \<longrightarrow>
         \<lparr>targetNodeId = way_nodeIds way ! i,
          cost = segmentCost fromNode toNode (getSpeedLimit (tags way)),
          wayId = way_id way, edge_isOneway = False,
          validModes = getValidModes (tags way)\<rparr>
         \<in> set (edgesAt (buildFromOSM parsed) (way_nodeIds way ! (i + 1)))) \<and>
        (\<forall>n e. e \<in> set (edgesAt (buildFromOSM parsed) n) \<longrightarrow>
           (\<exists>w \<in> set (osm_ways parsed). \<exists>j a b.
              j + 1 < length (way_nodeIds w) \<and>
              osm_nodes parsed (way_nodeIds w ! j) = Some a \<and>
              osm_nodes parsed (way_nodeIds w ! (j + 1)) = Some b \<and>
              (n = way_nodeIds w ! j \<and>
               e = \<lparr>targetNodeId = way_nodeIds w ! (j + 1),
                     cost = segmentCost a b (getSpeedLimit (tags w)),
                     wayId = way_id w, edge_isOneway = isOneway (tags w),
                     validModes = getValidModes (tags w)\<rparr> \<or>
               \<not> isOneway (tags w) \<and> n = way_nodeIds w ! (j + 1) \<and>
               e = \<lparr>targetNodeId = way_nodeIds w ! j,
                     cost = segmentCost a b (getSpeedLimit (tags w)),
                     wayId = way_id w, edge_isOneway = False,
                     validModes = getValidModes (tags w)\<rparr>)))"
proof -
  let ?fwd = "\<lparr>targetNodeId = way_nodeIds way ! (i + 1),
          cost = segmentCost fromNode toNode (getSpeedLimit (tags way)),
          wayId = way_id way, edge_isOneway = isOneway (tags way),
          validModes = getValidModes (tags way)\<rparr>"
  let ?bwd = "\<lparr>targetNodeId = way_nodeIds way ! i,
          cost = segmentCost fromNode toNode (getSpeedLimit (tags way)),
          wayId = way_id way, edge_isOneway = False,
          validModes = getValidModes (tags way)\<rparr>"
  have i': "i < length (way_nodeIds way) - 1" using i by simp
  have fwd: "?fwd \<in> set (edgesAt (buildFromOSM parsed) (way_nodeIds way ! i))"
    unfolding in_edgesAt_buildFromOSM in_segmentEdges using way i' fromNode toNode by blast
  have bwd: "?bwd \<in> set (edgesAt (buildFromOSM parsed) (way_nodeIds way ! (i + 1)))"
    if "\<not> isOneway (tags way)"
    unfolding in_edgesAt_buildFromOSM in_segmentEdges
    using way i' fromNode toNode that by blast
  have only: "\<exists>w \<in> set (osm_ways parsed). \<exists>j a b.
              j + 1 < length (way_nodeIds w) \<and>
              osm_nodes parsed (way_nodeIds w ! j) = Some a \<and>
              osm_nodes parsed (way_nodeIds w ! (j + 1)) = Some b \<and>
              (n = way_nodeIds w ! j \<and>
               e = \<lparr>targetNodeId = way_nodeIds w ! (j + 1),
                     cost = segmentCost a b (getSpeedLimit (tags w)),
                     wayId = way_id w, edge_isOneway = isOneway (tags w),
                     validModes = getValidModes (tags w)\<rparr> \<or>
               \<not> isOneway (tags w) \<and> n = way_nodeIds w ! (j + 1) \<and>
               e = \<lparr>targetNodeId = way_nodeIds w ! j,
                     cost = segmentCost a b (getSpeedLimit (tags w)),
                     wayId = way_id w, edge_isOneway = False,
                     validModes = getValidModes (tags w)\<rparr>)"
    if "e \<in> set (edgesAt (buildFromOSM parsed) n)" for n e
  proof -
    from that obtain w j where w: "w \<in> set (osm_ways parsed)"
      and j: "j < length (way_nodeIds w) - 1"
      and mem: "(n, e) \<in> set (segmentEdges (osm_nodes parsed) w j)"
      unfolding in_edgesAt_buildFromOSM by blast
    from j have "j + 1 < length (way_nodeIds w)" by simp
    with w mem show ?thesis unfolding in_segmentEdges by blast
  qed
  from fwd bwd only show ?thesis by blast
qed

text \<open>
  C5, amended, on the example: the two-way way \<open>w1\<close> over \<open>(a, b)\<close> gives an edge in
  each direction; the one-way way \<open>w2\<close> over \<open>(c, d)\<close> gives the forward edge, and no
  edge at all is stored under \<open>d\<close>.
\<close>

theorem buildFromOSM_forward_backward_witness:
  "edgeAB \<in> set (edgesAt exampleNet ''a'') \<and> edgeBA \<in> set (edgesAt exampleNet ''b'') \<and>
   edgeCD \<in> set (edgesAt exampleNet ''c'') \<and> set (edgesAt exampleNet ''d'') = {}"
proof -
  have ab: "wayAB \<in> set (osm_ways exampleParsed)" "0 + 1 < length (way_nodeIds wayAB)"
    "osm_nodes exampleParsed (way_nodeIds wayAB ! 0) = Some nodeA"
    "osm_nodes exampleParsed (way_nodeIds wayAB ! (0 + 1)) = Some nodeB"
    by (simp_all add: exampleParsed_def wayAB_def)
  have cd: "wayCD \<in> set (osm_ways exampleParsed)" "0 + 1 < length (way_nodeIds wayCD)"
    "osm_nodes exampleParsed (way_nodeIds wayCD ! 0) = Some nodeC"
    "osm_nodes exampleParsed (way_nodeIds wayCD ! (0 + 1)) = Some nodeD"
    by (simp_all add: exampleParsed_def wayCD_def)
  note mainAB = buildFromOSM_forward_backward [OF ab]
  note mainCD = buildFromOSM_forward_backward [OF cd]
  have stored: "edgeAB \<in> set (edgesAt exampleNet ''a'')"
    "edgeBA \<in> set (edgesAt exampleNet ''b'')" "edgeCD \<in> set (edgesAt exampleNet ''c'')"
    using mainAB mainCD
    by (simp_all add: exampleNet_def wayAB_def wayCD_def residential_modes residential_speed
        example_oneway edgeAB_def edgeBA_def edgeCD_def)
  have none: "e \<notin> set (edgesAt exampleNet ''d'')" for e
  proof
    assume "e \<in> set (edgesAt exampleNet ''d'')"
    with mainCD obtain w j where w: "w \<in> set (osm_ways exampleParsed)"
      and j: "j + 1 < length (way_nodeIds w)"
      and d: "''d'' = way_nodeIds w ! j \<or>
              \<not> isOneway (tags w) \<and> ''d'' = way_nodeIds w ! (j + 1)"
      unfolding exampleNet_def by blast
    from w have "w = wayAB \<or> w = wayCD" by (simp add: exampleParsed_def)
    then show False
    proof
      assume "w = wayAB"
      with j d show False by (simp add: wayAB_def)
    next
      assume "w = wayCD"
      with j d show False by (simp add: wayCD_def example_oneway)
    qed
  qed
  have "set (edgesAt exampleNet ''d'') = {}"
  proof (rule equals0I)
    fix e assume "e \<in> set (edgesAt exampleNet ''d'')"
    with none [of e] show False by contradiction
  qed
  with stored show ?thesis by simp
qed

section \<open>Virtual node identifiers\<close>

lemma decimalDigits_5000: "decimalDigits 5000 = ''5000''"
  by (simp add: decimalDigits.simps digitChar_def)

lemma toFixed4_half: "toFixed4 (1 / 2) = ''0.5000''"
proof -
  have "nat \<lfloor>\<bar>1 / 2 :: real\<bar> * 10000 + 1 / 2\<rfloor> = 5000" by simp
  then show ?thesis
    unfolding toFixed4_def Let_def by (simp add: decimalDigits_5000)
qed

lemma toFixed4_half_plus: "toFixed4 (1 / 2 + 1 / 2 ^ 20) = ''0.5000''"
proof -
  have "nat \<lfloor>\<bar>1 / 2 + 1 / 2 ^ 20 :: real\<bar> * 10000 + 1 / 2\<rfloor> = 5000" by simp
  then show ?thesis
    unfolding toFixed4_def Let_def by (simp add: decimalDigits_5000)
qed

lemma decimalDigits_7500: "decimalDigits 7500 = ''7500''"
  by (simp add: decimalDigits.simps digitChar_def)

lemma toFixed4_three_quarters: "toFixed4 (3 / 4) = ''0.7500''"
proof -
  have "nat \<lfloor>\<bar>3 / 4 :: real\<bar> * 10000 + 1 / 2\<rfloor> = 7500" by simp
  then show ?thesis
    unfolding toFixed4_def Let_def by (simp add: decimalDigits_7500)
qed

lemma example_ids:
  "getVirtualNodeId exampleOrigin = ''a_b_0.5000''"
  "getVirtualNodeId exampleDestination = ''a_b_0.7500''"
  "getVirtualNodeId farDestination = ''c_d_0.5000''"
  by (simp_all add: getVirtualNodeId_def exampleOrigin_def exampleDestination_def
      farDestination_def toFixed4_half toFixed4_three_quarters)

text \<open>
  C1 (fails on the code): two different snapped points on the segment \<open>(a, b)\<close>, at
  interpolation \<open>0.5\<close> and \<open>0.5 + 2^-20\<close> (both exact doubles), get the same virtual node
  identifier \<open>a_b_0.5000\<close>, because the identifier keeps four decimals of the
  interpolation value.  Used as origin and destination of one search, their
  identifiers are equal.
\<close>

theorem getVirtualNodeId_collision:
  "collidingOrigin \<noteq> collidingDestination \<and>
   getVirtualNodeId collidingOrigin = ''a_b_0.5000'' \<and>
   getVirtualNodeId collidingDestination = ''a_b_0.5000''"
proof -
  have o: "interpolation collidingOrigin = 1 / 2"
    and d: "interpolation collidingDestination = 1 / 2 + 1 / 2 ^ 20"
    by (simp_all add: collidingOrigin_def collidingDestination_def)
  have ids: "nodeIds collidingOrigin = (''a'', ''b'')"
    "nodeIds collidingDestination = (''a'', ''b'')"
    by (simp_all add: collidingOrigin_def collidingDestination_def)
  have ne: "collidingOrigin \<noteq> collidingDestination"
    using o d by auto
  show ?thesis
    unfolding getVirtualNodeId_def o d ids toFixed4_half toFixed4_half_plus
    using ne by simp
qed

section \<open>The search\<close>

lemma bubbleUp_ok:
  "index < length heap \<Longrightarrow>
   \<exists>h. bubbleUp heap index = Inr h \<and> set h = set heap \<and> length h = length heap"
proof (induction heap index rule: bubbleUp.induct)
  case (1 heap index)
  let ?p = "(index - 1) div 2"
  let ?heap' = "heap[index := heap ! ?p, ?p := heap ! index]"
  show ?case
  proof (cases "0 < index")
    case False
    then show ?thesis by (subst bubbleUp.simps) simp
  next
    case True
    have pi: "?p < length heap" "?p < index"
      using True 1(2) by auto
    have at: "heapAt heap index = Inr (heap ! index)"
      "heapAt heap ?p = Inr (heap ! ?p)"
      using 1(2) pi(1) by (simp_all only: heapAt_def if_True)
    have eq: "bubbleUp heap index =
        (if js_ge (snd (heap ! index)) (snd (heap ! ?p)) then Inr heap
         else bubbleUp ?heap' ?p)"
      by (subst bubbleUp.simps) (simp only: True if_True Let_def at sum.case)
    show ?thesis
    proof (cases "js_ge (snd (heap ! index)) (snd (heap ! ?p))")
      case ge: True
      then show ?thesis unfolding eq by simp
    next
      case ge: False
      have "\<exists>h. bubbleUp ?heap' ?p = Inr h \<and> set h = set ?heap' \<and>
                length h = length ?heap'"
        using pi(1) by (intro 1(1) [OF True refl at(1) at(2) ge]) simp
      moreover have "set ?heap' = set heap"
        using 1(2) pi(1) by (rule set_swap)
      ultimately show ?thesis unfolding eq using ge by simp
    qed
  qed
qed

lemma push_ok:
  "\<exists>h. push heap x p = Inr h \<and> set h = insert (x, p) (set heap) \<and>
       length h = Suc (length heap)"
  using bubbleUp_ok [of "length heap" "heap @ [(x, p)]"]
  by (auto simp: push_def Let_def)

lemma bubbleDown_unfold:
  "bubbleDown heap index =
     (let minIndex1 = (if 2 * index + 1 < length heap \<and>
                          js_less (snd (heap ! (2 * index + 1))) (snd (heap ! index))
                       then 2 * index + 1 else index);
          minIndex = (if 2 * index + 2 < length heap \<and>
                         js_less (snd (heap ! (2 * index + 2))) (snd (heap ! minIndex1))
                      then 2 * index + 2 else minIndex1)
      in if minIndex = index then heap
         else bubbleDown (heap[index := heap ! minIndex, minIndex := heap ! index]) minIndex)"
  by (subst bubbleDown.simps) (simp only: Let_def)

lemma bubbleDown_set: "set (bubbleDown heap index) = set heap"
proof (induction heap index rule: bubbleDown.induct)
  case (1 heap index)
  let ?m1 = "(if 2 * index + 1 < length heap \<and>
        js_less (snd (heap ! (2 * index + 1))) (snd (heap ! index))
     then 2 * index + 1 else index)"
  let ?m = "(if 2 * index + 2 < length heap \<and>
        js_less (snd (heap ! (2 * index + 2))) (snd (heap ! ?m1))
     then 2 * index + 2 else ?m1)"
  let ?heap' = "heap[index := heap ! ?m, ?m := heap ! index]"
  have eq: "bubbleDown heap index = (if ?m = index then heap else bubbleDown ?heap' ?m)"
    by (subst bubbleDown_unfold) (simp only: Let_def)
  show ?case
  proof (cases "?m = index")
    case True
    then show ?thesis unfolding eq by simp
  next
    case False
    have rng: "?m < length heap" "index < length heap"
      using False by (auto split: if_splits)
    have "set (bubbleDown ?heap' ?m) = set ?heap'"
      by (rule 1 [OF refl refl refl refl False])
    moreover have "set ?heap' = set heap" using rng(2) rng(1) by (rule set_swap)
    ultimately show ?thesis unfolding eq using False by simp
  qed
qed

lemma pop_Some:
  assumes "heap \<noteq> []"
  shows "\<exists>x h. pop heap = (Some x, h) \<and> x \<in> fst ` set heap \<and> set h \<subseteq> set heap"
proof (cases "length heap = 1")
  case True
  then show ?thesis
    using assms
    by (auto simp: pop_def intro!: imageI dest: in_set_butlastD)
next
  case False
  have "length heap \<noteq> 0" using assms by simp
  with False have len: "2 \<le> length heap" by arith
  have "set ((butlast heap)[0 := last heap]) \<subseteq> set heap"
  proof
    fix y assume "y \<in> set ((butlast heap)[0 := last heap])"
    then have "y \<in> insert (last heap) (set (butlast heap))"
      using set_update_subset_insert by fast
    then show "y \<in> set heap"
      using assms by (auto dest: in_set_butlastD)
  qed
  moreover have "heap ! 0 \<in> set heap" using assms by simp
  ultimately show ?thesis
    using False assms by (auto simp: pop_def Let_def bubbleDown_set)
qed

lemma reconstructPath_loop_ok:
  assumes "wf {(p, n). cf n = Some p}"
  shows "\<exists>r. reconstructPath_loop cf current path = Some r"
  using assms
proof (induction current arbitrary: path rule: wf_induct_rule)
  case (less current)
  show ?case
  proof (cases "cf current")
    case None
    then show ?thesis by (subst reconstructPath_loop.simps) simp
  next
    case (Some prev)
    then have "(prev, current) \<in> {(p, n). cf n = Some p}" by simp
    from less(1) [OF this] obtain r where
      "reconstructPath_loop cf prev (prev # path) = Some r" by blast
    then show ?thesis using Some by (subst reconstructPath_loop.simps) simp
  qed
qed

lemma searchInv_update:
  assumes inv: "searchInv st" and cur: "current \<in> closedSet st"
    and n: "nodeId \<notin> closedSet st"
    and h: "set h = insert (nodeId, f) (set (openSet st))"
  shows "searchInv (st\<lparr>openSet := h,
            cameFrom := (cameFrom st)(nodeId \<mapsto> current),
            gScore := (gScore st)(nodeId \<mapsto> g),
            fScore := (fScore st)(nodeId \<mapsto> f)\<rparr>)"
proof -
  let ?R = "{(p, m). cameFrom st m = Some p}"
  let ?R' = "{(p, m). ((cameFrom st)(nodeId \<mapsto> current)) m = Some p}"
  from inv have wfR: "wf ?R" and par: "\<And>m p. cameFrom st m = Some p \<Longrightarrow> p \<in> closedSet st"
    and gs: "\<And>x. x \<in> fst ` set (openSet st) \<Longrightarrow> gScore st x \<noteq> None"
    by (auto simp: searchInv_def)
  have nochild: "\<And>x. (nodeId, x) \<notin> ?R" using par n by auto
  have "(nodeId, current) \<notin> ?R\<^sup>*"
  proof
    assume "(nodeId, current) \<in> ?R\<^sup>*"
    then show False
    proof (cases rule: converse_rtranclE)
      case base
      then show False using cur n by simp
    next
      case (step y)
      then show False using nochild by blast
    qed
  qed
  then have "wf (insert (current, nodeId) ?R)" using wfR by simp
  moreover have "?R' \<subseteq> insert (current, nodeId) ?R" by (auto split: if_splits)
  ultimately have "wf ?R'" by (rule wf_subset)
  moreover have "\<And>m p. ((cameFrom st)(nodeId \<mapsto> current)) m = Some p \<Longrightarrow> p \<in> closedSet st"
    using par cur by (auto split: if_splits)
  moreover have "\<And>x. x \<in> fst ` set h \<Longrightarrow> ((gScore st)(nodeId \<mapsto> g)) x \<noteq> None"
    using gs h by auto
  ultimately show ?thesis by (simp add: searchInv_def)
qed

lemma relaxNeighbors_ok:
  "searchInv st \<Longrightarrow> current \<in> closedSet st \<Longrightarrow>
   \<exists>st'. relaxNeighbors net origin destination mode current ns st = Inr st' \<and>
         searchInv st' \<and> closedSet st' = closedSet st"
proof (induction ns arbitrary: st)
  case Nil
  then show ?case by simp
next
  case (Cons nc ns)
  obtain nodeId c where nc: "nc = (nodeId, c)" by (cases nc)
  let ?t = "js_add (js_or (gScore st current) PosInf) c"
  let ?f = "js_add ?t
     (Num (heuristic (getNodeLocation net nodeId origin destination) (location destination) mode))"
  show ?case
  proof (cases "nodeId \<notin> closedSet st \<and>
      (case gScore st nodeId of None \<Rightarrow> True | Some g \<Rightarrow> js_less ?t g)")
    case False
    then have "relaxNeighbors net origin destination mode current (nc # ns) st =
        relaxNeighbors net origin destination mode current ns st"
      by (auto simp: nc Let_def)
    then show ?thesis using Cons by simp
  next
    case True
    obtain h where h: "push (openSet st) nodeId ?f = Inr h"
      "set h = insert (nodeId, ?f) (set (openSet st))"
      using push_ok [of "openSet st" nodeId ?f] by blast
    let ?st1 = "st\<lparr>openSet := h,
            cameFrom := (cameFrom st)(nodeId \<mapsto> current),
            gScore := (gScore st)(nodeId \<mapsto> ?t),
            fScore := (fScore st)(nodeId \<mapsto> ?f)\<rparr>"
    have inv1: "searchInv ?st1"
      using Cons.prems True h(2) by (intro searchInv_update) auto
    have "relaxNeighbors net origin destination mode current (nc # ns) st =
        relaxNeighbors net origin destination mode current ns ?st1"
      using True h(1) by (simp add: nc Let_def)
    moreover have "\<exists>st'. relaxNeighbors net origin destination mode current ns ?st1 = Inr st' \<and>
         searchInv st' \<and> closedSet st' = closedSet ?st1"
      using Cons.IH [OF inv1] Cons.prems(2) by simp
    ultimately show ?thesis by simp
  qed
qed

lemma exploredIds_append_Complete [simp]:
  "exploredIds (es @ [Complete path c]) = exploredIds es"
  by (induction es rule: exploredIds.induct) simp_all

lemma searchInv_pop:
  assumes "searchInv st" and "set h \<subseteq> set (openSet st)"
  shows "searchInv (st\<lparr>openSet := h\<rparr>)"
  using assms by (auto simp: searchInv_def)

lemma searchInv_close:
  assumes "searchInv st" and "set h \<subseteq> set (openSet st)"
  shows "searchInv (st\<lparr>openSet := h, closedSet := insert current (closedSet st)\<rparr>)"
  using assms by (auto simp: searchInv_def)

lemma astar_loop_unfold:
  "astar_loop net origin destination mode st =
     (if isEmpty (openSet st) then Inr [Complete [] PosInf]
      else
        (case pop (openSet st) of
           (None, heap') \<Rightarrow> Inl UndefinedAsserted
         | (Some current, heap') \<Rightarrow>
            if current \<in> closedSet st
            then astar_loop net origin destination mode (st\<lparr>openSet := heap'\<rparr>)
            else
              (let step = Explore current (js_or (gScore st current) (Num 0))
                            (js_or (fScore st current) (Num 0))
               in if current = getVirtualNodeId destination
                  then
                    (case reconstructPath (cameFrom st) current of
                       None \<Rightarrow> Inl Nontermination
                     | Some finalPath \<Rightarrow>
                        (case gScore st current of
                           None \<Rightarrow> Inl UndefinedAsserted
                         | Some totalCost \<Rightarrow> Inr [step, Complete finalPath totalCost]))
                  else
                    (case relaxNeighbors net origin destination mode current
                            (getNeighborsForNode net current origin destination mode)
                            (st\<lparr>openSet := heap',
                                closedSet := insert current (closedSet st)\<rparr>) of
                       Inl e \<Rightarrow> Inl e
                     | Inr st' \<Rightarrow>
                        (case astar_loop net origin destination mode st' of
                           Inl e \<Rightarrow> Inl e
                         | Inr steps \<Rightarrow> Inr (step # steps))))))"
  by (rule astar_loop.simps)

lemma astar_loop_result:
  "searchInv st \<Longrightarrow>
   \<exists>es path c.
     astar_loop net origin destination mode st = Inr (es @ [Complete path c]) \<and>
     list_all isExplore es \<and> distinct (exploredIds es) \<and>
     set (exploredIds es) \<inter> closedSet st = {} \<and>
     (getVirtualNodeId destination \<notin> set (exploredIds es) \<longrightarrow> path = [] \<and> c = PosInf)"
proof (induction net origin destination mode st rule: astar_loop.induct)
  case (1 net origin destination mode st)
  note inv = \<open>searchInv st\<close>
  show ?case
  proof (cases "isEmpty (openSet st)")
    case True
    then have "astar_loop net origin destination mode st = Inr ([] @ [Complete [] PosInf])"
      by (subst astar_loop_unfold) simp
    then show ?thesis by (intro exI [of _ "[]"]) simp
  next
    case nonempty: False
    then have "openSet st \<noteq> []" by (simp add: isEmpty_def)
    from pop_Some [OF this] obtain current heap' where
      pop: "pop (openSet st) = (Some current, heap')" and
      cur_in: "current \<in> fst ` set (openSet st)" and
      sub: "set heap' \<subseteq> set (openSet st)" by blast
    show ?thesis
    proof (cases "current \<in> closedSet st")
      case True
      have eq: "astar_loop net origin destination mode st =
          astar_loop net origin destination mode (st\<lparr>openSet := heap'\<rparr>)"
        using nonempty pop True by (subst astar_loop_unfold) simp
      have "searchInv (st\<lparr>openSet := heap'\<rparr>)"
        using inv sub by (rule searchInv_pop)
      from 1(1) [OF nonempty pop [symmetric] refl True this]
      show ?thesis unfolding eq by simp
    next
      case notclosed: False
      let ?step = "Explore current (js_or (gScore st current) (Num 0))
                            (js_or (fScore st current) (Num 0))"
      show ?thesis
      proof (cases "current = getVirtualNodeId destination")
        case True
        from inv have "wf {(p, n). cameFrom st n = Some p}"
          by (simp add: searchInv_def)
        from reconstructPath_loop_ok [OF this] obtain finalPath where
          fp: "reconstructPath (cameFrom st) current = Some finalPath"
          unfolding reconstructPath_def by blast
        from inv cur_in obtain g where g: "gScore st current = Some g"
          by (auto simp: searchInv_def)
        have "astar_loop net origin destination mode st =
            Inr ([?step] @ [Complete finalPath g])"
          using nonempty pop notclosed True fp g
          by (subst astar_loop_unfold) (simp add: Let_def)
        moreover have "set (exploredIds [?step]) \<inter> closedSet st = {}"
          using notclosed by simp
        moreover have "getVirtualNodeId destination \<in> set (exploredIds [?step])"
          using True by simp
        ultimately show ?thesis
          by (intro exI [of _ "[?step]"] exI [of _ finalPath] exI [of _ g]) simp
      next
        case notgoal: False
        let ?st1 = "st\<lparr>openSet := heap', closedSet := insert current (closedSet st)\<rparr>"
        have inv1: "searchInv ?st1" using inv sub by (rule searchInv_close)
        have "current \<in> closedSet ?st1" by simp
        from relaxNeighbors_ok [OF inv1 this, of net origin destination mode
            "getNeighborsForNode net current origin destination mode"]
        obtain st' where
          relax: "relaxNeighbors net origin destination mode current
                    (getNeighborsForNode net current origin destination mode) ?st1 = Inr st'"
          and inv': "searchInv st'"
          and cl': "closedSet st' = insert current (closedSet st)"
          by auto
        from 1(2) [OF nonempty pop [symmetric] refl notclosed refl notgoal relax inv']
        obtain es path c where
          rec: "astar_loop net origin destination mode st' = Inr (es @ [Complete path c])"
          and ex: "list_all isExplore es"
          and di: "distinct (exploredIds es)"
          and cs: "set (exploredIds es) \<inter> closedSet st' = {}"
          and fin: "getVirtualNodeId destination \<notin> set (exploredIds es) \<longrightarrow>
                    path = [] \<and> c = PosInf"
          by blast
        have "astar_loop net origin destination mode st =
            Inr ((?step # es) @ [Complete path c])"
          using nonempty pop notclosed notgoal relax rec
          by (subst astar_loop_unfold) (simp add: Let_def)
        moreover have "list_all isExplore (?step # es)" using ex by simp
        moreover have "distinct (exploredIds (?step # es))"
          using di cs cl' by auto
        moreover have "set (exploredIds (?step # es)) \<inter> closedSet st = {}"
          using cs cl' notclosed by auto
        moreover have "getVirtualNodeId destination \<notin> set (exploredIds (?step # es)) \<longrightarrow>
                    path = [] \<and> c = PosInf"
          using fin by simp
        ultimately show ?thesis by blast
      qed
    qed
  qed
qed

lemma searchInv_initial:
  "set h = {(startId, p)} \<Longrightarrow>
   searchInv \<lparr>openSet = h, cameFrom = Map.empty, gScore = [startId \<mapsto> g],
              fScore = [startId \<mapsto> p], closedSet = {}\<rparr>"
  by (simp add: searchInv_def)

lemma findRoute_result:
  "\<exists>es path c.
     findRoute net origin destination mode = Inr (es @ [Complete path c]) \<and>
     list_all isExplore es \<and> distinct (exploredIds es) \<and>
     (getVirtualNodeId destination \<notin> set (exploredIds es) \<longrightarrow> path = [] \<and> c = PosInf)"
proof -
  let ?startId = "getVirtualNodeId origin"
  let ?h0 = "Num (heuristic (location origin) (location destination) mode)"
  obtain h where h: "push [] ?startId ?h0 = Inr h" "set h = {(?startId, ?h0)}"
    using push_ok [of "[]" ?startId ?h0] by auto
  let ?st0 = "\<lparr>openSet = h, cameFrom = Map.empty, gScore = [?startId \<mapsto> Num 0],
              fScore = [?startId \<mapsto> ?h0], closedSet = {}\<rparr>"
  have "searchInv ?st0" using h(2) by (rule searchInv_initial)
  from astar_loop_result [OF this, of net origin destination mode]
  show ?thesis
    using h(1) by (simp add: findRoute_def Let_def)
qed

lemma js_or_Num [simp]: "js_or (Some (Num x)) (Num 0) = Num x"
  by (simp add: js_or_def)

lemma js_or_PosInf [simp]: "js_or (Some PosInf) d = PosInf" "js_or (Some (Num 0)) PosInf = PosInf"
  by (simp_all add: js_or_def)

lemma example_neighbors_a:
  "getNeighbors exampleNet ''a'' Car = [edgeAB]" "getNeighbors exampleNet ''b'' Car = [edgeBA]"
  by (simp_all add: getNeighbors_def exampleNet_edgesAt edgeAB_def edgeBA_def)

lemma example_nodeIds:
  "nodeIds exampleOrigin = (''a'', ''b'')" "nodeIds exampleDestination = (''a'', ''b'')"
  "nodeIds farDestination = (''c'', ''d'')"
  "interpolation exampleOrigin = 1 / 2" "interpolation exampleDestination = 3 / 4"
  by (simp_all add: exampleOrigin_def exampleDestination_def farDestination_def)

lemma edge_targets:
  "targetNodeId edgeAB = ''b''" "targetNodeId edgeBA = ''a''"
  by (simp_all add: edgeAB_def edgeBA_def)

lemma findRoute_example_far:
  "findRoute exampleNet exampleOrigin farDestination Car =
     Inr [Explore ''a_b_0.5000'' (Num 0)
            (Num (heuristic (location exampleOrigin) (location farDestination) Car)),
          Explore ''a'' PosInf PosInf, Explore ''b'' PosInf PosInf,
          Complete [] PosInf]"
  by (simp add: findRoute_def Let_def push_def bubbleUp.simps heapAt_def astar_loop.simps
      isEmpty_def pop_def bubbleDown.simps getNeighborsForNode_def
      getEdgeCostBetweenNodes_def js_scale_def includesId_def
      example_ids example_neighbors_a example_nodeIds edge_targets example_costs)

lemma findRoute_example_near:
  "findRoute exampleNet exampleOrigin exampleDestination Car =
     Inr [Explore ''a_b_0.5000'' (Num 0)
            (Num (heuristic (location exampleOrigin) (location exampleDestination) Car)),
          Explore ''a'' PosInf PosInf, Explore ''b'' PosInf PosInf,
          Explore ''a_b_0.7500'' PosInf PosInf,
          Complete [''a_b_0.5000'', ''a'', ''a_b_0.7500''] PosInf]"
  by (simp add: findRoute_def Let_def push_def bubbleUp.simps heapAt_def astar_loop.simps
      isEmpty_def pop_def bubbleDown.simps getNeighborsForNode_def
      getEdgeCostBetweenNodes_def js_scale_def includesId_def
      reconstructPath_def reconstructPath_loop.simps
      example_ids example_neighbors_a example_nodeIds edge_targets example_costs)

lemma distinct_count_list: "distinct xs \<Longrightarrow> count_list xs x \<le> 1"
  by (induction xs) (auto simp: count_list_0_iff)

text \<open>
  C3: for every graph, origin, destination and mode, \<open>findRoute\<close> returns a finite,
  non-empty list of steps: it raises no TypeError, meets no undefined value and
  neither the search loop nor the path reconstruction runs forever.  If the
  destination's virtual identifier is not the node of any Explore step (the open set
  emptied without the destination being popped), the last step is
  \<open>Complete\<close> with the empty path and total cost Infinity.
\<close>

theorem findRoute_terminates:
  "\<exists>steps. findRoute net origin destination mode = Inr steps \<and> steps \<noteq> [] \<and>
     (getVirtualNodeId destination \<notin> set (exploredIds steps) \<longrightarrow>
        last steps = Complete [] PosInf)"
proof -
  from findRoute_result [of net origin destination mode] obtain es path c where
    r: "findRoute net origin destination mode = Inr (es @ [Complete path c])" and
    f: "getVirtualNodeId destination \<notin> set (exploredIds es) \<longrightarrow> path = [] \<and> c = PosInf"
    by blast
  show ?thesis
    by (rule exI [of _ "es @ [Complete path c]"]) (use r f in simp)
qed

theorem findRoute_terminates_witness:
  "\<exists>steps. findRoute exampleNet exampleOrigin farDestination Car = Inr steps \<and>
     getVirtualNodeId farDestination \<notin> set (exploredIds steps) \<and>
     last steps = Complete [] PosInf"
proof -
  from findRoute_terminates [of exampleNet exampleOrigin farDestination Car]
  obtain steps where
    s: "findRoute exampleNet exampleOrigin farDestination Car = Inr steps" and
    l: "getVirtualNodeId farDestination \<notin> set (exploredIds steps) \<longrightarrow>
        last steps = Complete [] PosInf"
    by blast
  from s have "exploredIds steps = [''a_b_0.5000'', ''a'', ''b'']"
    by (auto simp: findRoute_example_far)
  then have "getVirtualNodeId farDestination \<notin> set (exploredIds steps)"
    by (simp add: example_ids)
  with s l show ?thesis by blast
qed

text \<open>
  C4: for every input, the steps of \<open>findRoute\<close> are a list of Explore steps followed
  by one Complete step, which is the last step; no PathUpdate step occurs.
\<close>

theorem findRoute_explore_then_complete:
  "\<exists>es path totalCost.
     findRoute net origin destination mode = Inr (es @ [Complete path totalCost]) \<and>
     list_all isExplore es"
  using findRoute_result [of net origin destination mode] by blast

theorem findRoute_explore_then_complete_witness:
  "\<exists>es path totalCost.
     findRoute exampleNet exampleOrigin exampleDestination Car =
       Inr (es @ [Complete path totalCost]) \<and>
     list_all isExplore es \<and> length es = 4 \<and>
     path = [''a_b_0.5000'', ''a'', ''a_b_0.7500'']"
proof -
  from findRoute_explore_then_complete [of exampleNet exampleOrigin exampleDestination Car]
  obtain es path c where
    r: "findRoute exampleNet exampleOrigin exampleDestination Car =
          Inr (es @ [Complete path c])" and
    e: "list_all isExplore es" by blast
  let ?steps = "[Explore ''a_b_0.5000'' (Num 0)
            (Num (heuristic (location exampleOrigin) (location exampleDestination) Car)),
          Explore ''a'' PosInf PosInf, Explore ''b'' PosInf PosInf,
          Explore ''a_b_0.7500'' PosInf PosInf,
          Complete [''a_b_0.5000'', ''a'', ''a_b_0.7500''] PosInf]"
  from r have eq: "es @ [Complete path c] = ?steps"
    by (simp add: findRoute_example_near)
  then have "butlast (es @ [Complete path c]) = butlast ?steps"
    "last (es @ [Complete path c]) = last ?steps" by simp_all
  then have "length es = 4" "path = [''a_b_0.5000'', ''a'', ''a_b_0.7500'']"
    by (simp_all only: butlast_snoc last_snoc) simp_all
  with r e show ?thesis by blast
qed

text \<open>
  C8: in the steps of \<open>findRoute\<close> no node identifier is explored twice.  So no
  identifier occurs in more than two Explore steps and at most one identifier (in fact
  none) occurs in two: the tolerated duplicate never happens.
\<close>

theorem findRoute_explores_once:
  "\<exists>steps. findRoute net origin destination mode = Inr steps \<and>
     distinct (exploredIds steps) \<and>
     (\<forall>n. count_list (exploredIds steps) n \<le> 2) \<and>
     card {n. count_list (exploredIds steps) n = 2} \<le> 1"
proof -
  from findRoute_result [of net origin destination mode] obtain es path c where
    r: "findRoute net origin destination mode = Inr (es @ [Complete path c])" and
    d: "distinct (exploredIds es)"
    by blast
  let ?ids = "exploredIds (es @ [Complete path c])"
  have d': "distinct ?ids" using d by simp
  then have le: "count_list ?ids n \<le> 1" for n by (rule distinct_count_list)
  have "count_list ?ids n \<le> 2" for n
  proof -
    have "count_list ?ids n \<le> 1" by (rule le)
    then show ?thesis by linarith
  qed
  moreover have "{n. count_list ?ids n = 2} = {}"
  proof -
    have "count_list ?ids n \<noteq> 2" for n
    proof -
      have "count_list ?ids n \<le> 1" by (rule le)
      then show ?thesis by linarith
    qed
    then show ?thesis by simp
  qed
  ultimately show ?thesis using r d' by (intro exI [of _ "es @ [Complete path c]"]) simp
qed

theorem findRoute_explores_once_witness:
  "\<exists>steps. findRoute exampleNet exampleOrigin exampleDestination Car = Inr steps \<and>
     exploredIds steps = [''a_b_0.5000'', ''a'', ''b'', ''a_b_0.7500''] \<and>
     distinct (exploredIds steps)"
proof -
  from findRoute_explores_once [of exampleNet exampleOrigin exampleDestination Car]
  obtain steps where
    s: "findRoute exampleNet exampleOrigin exampleDestination Car = Inr steps" and
    d: "distinct (exploredIds steps)" by blast
  from s have "exploredIds steps = [''a_b_0.5000'', ''a'', ''b'', ''a_b_0.7500'']"
    by (auto simp: findRoute_example_near)
  with s d show ?thesis by blast
qed

lemma find_target_Some:
  "find P xs = Some e \<Longrightarrow> e \<in> set xs \<and> P e"
  by (induction xs) (auto split: if_splits)

lemma find_target_None: "find P xs = None \<longleftrightarrow> \<not> (\<exists>e \<in> set xs. P e)"
  by (induction xs) auto

lemma in_getNeighbors:
  "e \<in> set (getNeighbors net n mode) \<longleftrightarrow> e \<in> set (edgesAt net n) \<and> mode \<in> set (validModes e)"
  by (auto simp: getNeighbors_def)

lemma js_of_cost_finite [simp]: "js_of_cost c \<noteq> PosInf"
  by (cases c) (simp_all add: js_of_cost_def)

lemma getEdgeCostBetweenNodes_cases:
  "(getEdgeCostBetweenNodes net a b mode = PosInf \<longleftrightarrow>
      \<not> (\<exists>e. connects net mode a b e) \<and> \<not> (\<exists>e. connects net mode b a e)) \<and>
   ((\<exists>e. connects net mode a b e) \<longrightarrow>
      (\<exists>e. connects net mode a b e \<and> getEdgeCostBetweenNodes net a b mode = js_of_cost (cost e))) \<and>
   (\<not> (\<exists>e. connects net mode a b e) \<and> (\<exists>e. connects net mode b a e) \<longrightarrow>
      (\<exists>e. connects net mode b a e \<and> getEdgeCostBetweenNodes net a b mode = js_of_cost (cost e)))"
proof (cases "find (\<lambda>e. targetNodeId e = b) (getNeighbors net a mode)")
  case (Some e)
  then have c: "connects net mode a b e"
    using find_target_Some [OF Some] by (simp add: connects_def in_getNeighbors)
  have v: "getEdgeCostBetweenNodes net a b mode = js_of_cost (cost e)"
    using Some by (simp add: getEdgeCostBetweenNodes_def)
  show ?thesis using c v by auto
next
  case None
  then have nf: "\<not> (\<exists>e. connects net mode a b e)"
    by (auto simp: find_target_None connects_def in_getNeighbors)
  show ?thesis
  proof (cases "find (\<lambda>e. targetNodeId e = a) (getNeighbors net b mode)")
    case None2: None
    then have "\<not> (\<exists>e. connects net mode b a e)"
      by (auto simp: find_target_None connects_def in_getNeighbors)
    moreover have "getEdgeCostBetweenNodes net a b mode = PosInf"
      using None None2 by (simp add: getEdgeCostBetweenNodes_def)
    ultimately show ?thesis using nf by simp
  next
    case (Some e)
    then have c: "connects net mode b a e"
      using find_target_Some [OF Some] by (simp add: connects_def in_getNeighbors)
    have v: "getEdgeCostBetweenNodes net a b mode = js_of_cost (cost e)"
      using None Some by (simp add: getEdgeCostBetweenNodes_def)
    show ?thesis using c v nf by auto
  qed
qed

text \<open>
  C7: from the virtual origin identifier, \<open>getNeighborsForNode\<close> yields exactly two
  neighbours: the first endpoint at \<open>t\<close> times the full edge cost and the second at
  \<open>1 - t\<close> times the full edge cost.  The full edge cost between two nodes \<open>a\<close> and \<open>b\<close>
  is Infinity exactly when no stored edge that allows the mode leads from \<open>a\<close> to \<open>b\<close>
  or from \<open>b\<close> to \<open>a\<close>; it is the cost of such an edge from \<open>a\<close> to \<open>b\<close> when there is
  one, and otherwise the cost of such an edge from \<open>b\<close> to \<open>a\<close>.  (The product follows
  JavaScript: \<open>0\<close> times Infinity is NaN.)
\<close>

theorem virtual_origin_neighbors:
  "getNeighborsForNode net (getVirtualNodeId origin) origin destination mode =
     [(fst (nodeIds origin),
       js_scale (interpolation origin)
         (getEdgeCostBetweenNodes net (fst (nodeIds origin)) (snd (nodeIds origin)) mode)),
      (snd (nodeIds origin),
       js_scale (1 - interpolation origin)
         (getEdgeCostBetweenNodes net (fst (nodeIds origin)) (snd (nodeIds origin)) mode))] \<and>
   (getEdgeCostBetweenNodes net a b mode = PosInf \<longleftrightarrow>
      \<not> (\<exists>e. connects net mode a b e) \<and> \<not> (\<exists>e. connects net mode b a e)) \<and>
   ((\<exists>e. connects net mode a b e) \<longrightarrow>
      (\<exists>e. connects net mode a b e \<and> getEdgeCostBetweenNodes net a b mode = js_of_cost (cost e))) \<and>
   (\<not> (\<exists>e. connects net mode a b e) \<and> (\<exists>e. connects net mode b a e) \<longrightarrow>
      (\<exists>e. connects net mode b a e \<and> getEdgeCostBetweenNodes net a b mode = js_of_cost (cost e)))"
  using getEdgeCostBetweenNodes_cases [of net a b mode]
  by (simp add: getNeighborsForNode_def Let_def)

theorem virtual_origin_neighbors_witness:
  "getNeighborsForNode exampleNet ''a_b_0.5000'' exampleOrigin exampleDestination Car =
     [(''a'', Num (1 / 2 * costAB)), (''b'', Num (1 / 2 * costAB))] \<and>
   getEdgeCostBetweenNodes exampleNet ''d'' ''c'' Car = Num costCD \<and>
   getEdgeCostBetweenNodes exampleNet ''a'' ''c'' Car = PosInf"
proof -
  have c_ab: "connects exampleNet Car ''a'' ''b'' e \<longleftrightarrow> e = edgeAB" for e
    by (auto simp: connects_def exampleNet_edgesAt edgeAB_def)
  have c_cd: "connects exampleNet Car ''c'' ''d'' e \<longleftrightarrow> e = edgeCD" for e
    by (auto simp: connects_def exampleNet_edgesAt edgeCD_def)
  have c_dc: "\<not> connects exampleNet Car ''d'' ''c'' e" for e
    by (simp add: connects_def exampleNet_edgesAt)
  have c_ac: "\<not> connects exampleNet Car ''a'' ''c'' e" "\<not> connects exampleNet Car ''c'' ''a'' e" for e
    by (auto simp: connects_def exampleNet_edgesAt edgeAB_def edgeCD_def)
  note ab = virtual_origin_neighbors
    [of exampleNet exampleOrigin exampleDestination Car "''a''" "''b''"]
  note dc = virtual_origin_neighbors
    [of exampleNet exampleOrigin exampleDestination Car "''d''" "''c''"]
  note ac = virtual_origin_neighbors
    [of exampleNet exampleOrigin exampleDestination Car "''a''" "''c''"]
  have full: "getEdgeCostBetweenNodes exampleNet ''a'' ''b'' Car = Num costAB"
    using ab c_ab by (auto simp: example_costs)
  have "getNeighborsForNode exampleNet ''a_b_0.5000'' exampleOrigin exampleDestination Car =
     [(''a'', Num (1 / 2 * costAB)), (''b'', Num (1 / 2 * costAB))]"
    using ab by (simp add: example_ids example_nodeIds full js_scale_def)
  moreover have "getEdgeCostBetweenNodes exampleNet ''d'' ''c'' Car = Num costCD"
    using dc c_dc c_cd by (auto simp: example_costs)
  moreover have "getEdgeCostBetweenNodes exampleNet ''a'' ''c'' Car = PosInf"
    using ac c_ac by auto
  ultimately show ?thesis by blast
qed

section \<open>Snapping\<close>

lemma pointToSegmentDistance_defined:
  "\<exists>r. pointToSegmentDistance point segmentStart segmentEnd = Some r \<and>
       0 \<le> seg_t r \<and> seg_t r \<le> 1 \<and>
       seg_distance r = haversineDistance point (seg_closestPoint r)"
proof -
  let ?dx = "lng segmentEnd - lng segmentStart"
  let ?dy = "lat segmentEnd - lat segmentStart"
  show ?thesis
  proof (cases "?dx = 0 \<and> ?dy = 0")
    case True
    then show ?thesis by (simp add: pointToSegmentDistance_def)
  next
    case False
    then have "?dx * ?dx + ?dy * ?dy \<noteq> 0"
      using sum_squares_eq_zero_iff [of ?dx ?dy] by blast
    then show ?thesis
      using False by (simp add: pointToSegmentDistance_def safeDivide_def Let_def)
  qed
qed

lemma snapEdge_step:
  "nodes net fromId = Some fromNode \<Longrightarrow>
   snapEdge net point mode fromId fromNode s edge =
     (case segmentMatch net point mode fromId edge of
        None \<Rightarrow> s
      | Some c \<Rightarrow> snapStep s c)"
  by (auto simp: snapEdge_def segmentMatch_def snapStep_def split: option.splits)

lemma foldl_snapEdge:
  "nodes net fromId = Some fromNode \<Longrightarrow>
   foldl (snapEdge net point mode fromId fromNode) s edgeList =
     foldl snapStep s (List.map_filter (segmentMatch net point mode fromId) edgeList)"
  by (induction edgeList arbitrary: s)
     (simp_all add: snapEdge_step List.map_filter_simps split: option.splits)

lemma segmentMatch_no_node:
  "nodes net fromId = None \<Longrightarrow> segmentMatch net point mode fromId edge = None"
  by (simp add: segmentMatch_def)

lemma map_filter_no_node:
  "nodes net fromId = None \<Longrightarrow>
   List.map_filter (segmentMatch net point mode fromId) edgeList = []"
  by (induction edgeList) (simp_all add: List.map_filter_simps segmentMatch_no_node)

lemma snapEntry_fold:
  "snapEntry net point mode s entry =
     foldl snapStep s (List.map_filter (segmentMatch net point mode (fst entry)) (snd entry))"
  by (cases "nodes net (fst entry)")
     (simp_all add: snapEntry_def foldl_snapEdge map_filter_no_node)

lemma foldl_snapEntry:
  "foldl (snapEntry net point mode) s adj =
     foldl snapStep s
       (concat (map (\<lambda>entry. List.map_filter (segmentMatch net point mode (fst entry))
                                (snd entry)) adj))"
  by (induction adj arbitrary: s) (simp_all add: snapEntry_fold)

lemma snapToRoad_fold:
  "snapToRoad net point mode maxRadius =
     bestMatch (foldl snapStep \<lparr>bestMatch = None, minDistance = maxRadius\<rparr>
                  (segmentMatches net point mode))"
  by (simp add: snapToRoad_def segmentMatches_def foldl_snapEntry)

lemma foldl_snapStep_None:
  "bestMatch (foldl snapStep s cs) = None \<longleftrightarrow>
     bestMatch s = None \<and> (\<forall>c \<in> set cs. \<not> snd c < minDistance s)"
proof (induction cs arbitrary: s)
  case Nil
  show ?case by simp
next
  case (Cons c cs)
  show ?case
  proof (cases "snd c < minDistance s")
    case True
    then have "snapStep s c = \<lparr>bestMatch = Some (fst c), minDistance = snd c\<rparr>"
      by (simp add: snapStep_def)
    then show ?thesis using True by (auto simp: Cons)
  next
    case False
    then have "snapStep s c = s" by (simp add: snapStep_def)
    then show ?thesis using False by (simp add: Cons)
  qed
qed

lemma foldl_snapStep_Some:
  "bestMatch (foldl snapStep s cs) = Some sp \<Longrightarrow>
     (bestMatch s = Some sp \<and> minDistance (foldl snapStep s cs) = minDistance s) \<or>
     ((sp, minDistance (foldl snapStep s cs)) \<in> set cs \<and>
      minDistance (foldl snapStep s cs) < minDistance s)"
proof (induction cs arbitrary: s)
  case Nil
  then show ?case by simp
next
  case (Cons c cs)
  show ?case
  proof (cases "snd c < minDistance s")
    case True
    let ?s1 = "\<lparr>bestMatch = Some (fst c), minDistance = snd c\<rparr>"
    let ?m = "minDistance (foldl snapStep ?s1 cs)"
    have eq: "foldl snapStep s (c # cs) = foldl snapStep ?s1 cs"
      using True by (simp add: snapStep_def)
    from Cons.prems have "bestMatch (foldl snapStep ?s1 cs) = Some sp"
      unfolding eq .
    from Cons.IH [OF this]
    have "(fst c = sp \<and> ?m = snd c) \<or> ((sp, ?m) \<in> set cs \<and> ?m < snd c)"
      by simp
    then have "(sp, ?m) \<in> set (c # cs) \<and> ?m < minDistance s"
    proof
      assume a: "fst c = sp \<and> ?m = snd c"
      then have "c = (sp, ?m)" by (metis prod.collapse)
      then have "(sp, ?m) \<in> set (c # cs)" by (metis list.set_intros(1))
      moreover have "?m < minDistance s" using a True by linarith
      ultimately show ?thesis by (rule conjI)
    next
      assume "(sp, ?m) \<in> set cs \<and> ?m < snd c"
      then show ?thesis using True by simp
    qed
    then show ?thesis unfolding eq by blast
  next
    case False
    have eq: "foldl snapStep s (c # cs) = foldl snapStep s cs"
      using False by (simp add: snapStep_def)
    from Cons.prems have "bestMatch (foldl snapStep s cs) = Some sp"
      unfolding eq .
    from Cons.IH [OF this] show ?thesis unfolding eq by auto
  qed
qed

lemma segmentMatches_sound:
  assumes "(sp, d) \<in> set (segmentMatches net point mode)"
  shows "0 \<le> interpolation sp \<and> interpolation sp \<le> 1 \<and>
         d = haversineDistance point (location sp)"
proof -
  from assms obtain fromId edge where
    "segmentMatch net point mode fromId edge = Some (sp, d)"
    by (auto simp: segmentMatches_def List.map_filter_def)
  then obtain a b r where
    "pointToSegmentDistance point a b = Some r"
    "sp = \<lparr>location = seg_closestPoint r, nodeIds = (fromId, targetNodeId edge),
           interpolation = seg_t r\<rparr>" "d = seg_distance r"
    by (auto simp: segmentMatch_def split: if_splits option.splits)
  then show ?thesis
    using pointToSegmentDistance_defined [of point a b] by auto
qed

lemma haversineDistance_self: "haversineDistance p p = 0"
  by (simp add: haversineDistance_def atan2_def)

lemma tinyNet_adjacency:
  "adjacencyList tinyNet = [(''a'', [edgeAB]), (''b'', [edgeBA])]"
  by (simp add: tinyNet_def buildFromOSM_def processWay_def
      processSegment_def wayAB_def addEdge_def Let_def residential_modes
      residential_speed example_oneway edgeAB_def edgeBA_def)

lemma tinyNet_nodes: "nodes tinyNet = [''a'' \<mapsto> nodeA, ''b'' \<mapsto> nodeB]"
  by (simp add: tinyNet_def)

lemma tiny_segment_ab:
  "pointToSegmentDistance queryPoint \<lparr>lat = 0, lng = 0\<rparr> \<lparr>lat = 0, lng = 1\<rparr> =
     Some \<lparr>seg_distance = 0, seg_closestPoint = \<lparr>lat = 0, lng = 0\<rparr>, seg_t = 0\<rparr>"
  using haversineDistance_self [of queryPoint]
  by (simp add: pointToSegmentDistance_def safeDivide_def Let_def queryPoint_def)

lemma tiny_segment_ba:
  "pointToSegmentDistance queryPoint \<lparr>lat = 0, lng = 1\<rparr> \<lparr>lat = 0, lng = 0\<rparr> =
     Some \<lparr>seg_distance = 0, seg_closestPoint = \<lparr>lat = 0, lng = 0\<rparr>, seg_t = 1\<rparr>"
  using haversineDistance_self [of queryPoint]
  by (simp add: pointToSegmentDistance_def safeDivide_def Let_def queryPoint_def)

lemma tinyNet_matches:
  "segmentMatches tinyNet queryPoint Car =
     [(\<lparr>location = \<lparr>lat = 0, lng = 0\<rparr>, nodeIds = (''a'', ''b''), interpolation = 0\<rparr>, 0),
      (\<lparr>location = \<lparr>lat = 0, lng = 0\<rparr>, nodeIds = (''b'', ''a''), interpolation = 1\<rparr>, 0)]"
  by (simp add: segmentMatches_def tinyNet_adjacency List.map_filter_simps segmentMatch_def
      tinyNet_nodes edgeAB_def edgeBA_def nodeA_def nodeB_def tiny_segment_ab tiny_segment_ba)

lemma snapToRoad_tiny:
  "snapToRoad tinyNet queryPoint Car 100 =
     Some \<lparr>location = \<lparr>lat = 0, lng = 0\<rparr>, nodeIds = (''a'', ''b''), interpolation = 0\<rparr>"
  by (simp add: snapToRoad_fold tinyNet_matches snapStep_def)

subsection \<open>The code's projection is the specification's\<close>


















text \<open>
  C9: for every query point and every segment whose two endpoints are the same point,
  the projection performs no division (its result is not \<open>None\<close>) and gives \<open>t = 0\<close>
  with the segment's start as the closest point.
\<close>

theorem pointToSegmentDistance_degenerate:
  assumes "lat segmentEnd = lat segmentStart" and "lng segmentEnd = lng segmentStart"
  shows "pointToSegmentDistance point segmentStart segmentEnd =
     Some \<lparr>seg_distance = haversineDistance point segmentStart,
           seg_closestPoint = segmentStart, seg_t = 0\<rparr>"
  using assms by (simp add: pointToSegmentDistance_def)

text \<open>
  C9 on an example: a segment from \<open>(1, 2)\<close> to \<open>(1, 2)\<close>, seen from the query point.
\<close>

theorem pointToSegmentDistance_degenerate_witness:
  "pointToSegmentDistance queryPoint \<lparr>lat = 1, lng = 2\<rparr> \<lparr>lat = 1, lng = 2\<rparr> =
     Some \<lparr>seg_distance = haversineDistance queryPoint \<lparr>lat = 1, lng = 2\<rparr>,
           seg_closestPoint = \<lparr>lat = 1, lng = 2\<rparr>, seg_t = 0\<rparr>"
  by (rule pointToSegmentDistance_degenerate) simp_all

text \<open>
  C10: the radius is exclusive.  If every segment valid for the mode is at distance
  \<open>maxRadius\<close> or more (in particular exactly \<open>maxRadius\<close>), \<open>snapToRoad\<close> returns null;
  and a returned point comes from a valid segment at distance strictly less than
  \<open>maxRadius\<close>.
\<close>

theorem snapToRoad_radius_exclusive:
  "((\<forall>c \<in> set (segmentMatches net point mode). maxRadius \<le> snd c) \<longrightarrow>
      snapToRoad net point mode maxRadius = None) \<and>
   (\<forall>sp. snapToRoad net point mode maxRadius = Some sp \<longrightarrow>
      (sp, haversineDistance point (location sp)) \<in> set (segmentMatches net point mode) \<and>
      haversineDistance point (location sp) < maxRadius)"
proof (intro conjI allI impI)
  assume "\<forall>c \<in> set (segmentMatches net point mode). maxRadius \<le> snd c"
  then have "\<forall>c \<in> set (segmentMatches net point mode). \<not> snd c < maxRadius"
    by auto
  then show "snapToRoad net point mode maxRadius = None"
    by (simp add: snapToRoad_fold foldl_snapStep_None)
next
  fix sp assume "snapToRoad net point mode maxRadius = Some sp"
  then obtain d where d: "(sp, d) \<in> set (segmentMatches net point mode)" "d < maxRadius"
    using foldl_snapStep_Some [of "\<lparr>bestMatch = None, minDistance = maxRadius\<rparr>"
        "segmentMatches net point mode" sp]
    by (auto simp: snapToRoad_fold)
  moreover from segmentMatches_sound [OF d(1)]
  have "d = haversineDistance point (location sp)" by simp
  ultimately show
    "(sp, haversineDistance point (location sp)) \<in> set (segmentMatches net point mode)"
    "haversineDistance point (location sp) < maxRadius"
    by simp_all
qed

theorem snapToRoad_radius_exclusive_witness:
  "snapToRoad tinyNet queryPoint Car 0 = None \<and>
   haversineDistance queryPoint
     (location \<lparr>location = \<lparr>lat = 0, lng = 0\<rparr>, nodeIds = (''a'', ''b''),
                interpolation = 0\<rparr>) < 100"
proof -
  note near = snapToRoad_radius_exclusive [of tinyNet queryPoint Car 100]
  note zero = snapToRoad_radius_exclusive [of tinyNet queryPoint Car 0]
  have "snapToRoad tinyNet queryPoint Car 0 = None"
    using zero by (simp add: tinyNet_matches)
  moreover have "haversineDistance queryPoint
     (location \<lparr>location = \<lparr>lat = 0, lng = 0\<rparr>, nodeIds = (''a'', ''b''),
                interpolation = 0\<rparr>) < 100"
    using near snapToRoad_tiny by blast
  ultimately show ?thesis by blast
qed

end
